theory Spec2Isabelle
  imports Main "HOL-Library.Word"
begin

unbundle bit_operations_syntax

section \<open>Network addresses: the part of package net that isAllowedIP calls\<close>

text \<open>
  A Go string is a sequence of bytes, here a \<open>string\<close>. A \<open>net.IP\<close> and a
  \<open>net.IPMask\<close> are byte slices; the nil slice is the empty list (both have length 0,
  and the library only tests their length).

  The text grammar of a bare address (\<open>netip.ParseAddr\<close>, accepting only addresses
  without a zone) is not part of this repository. It is a parameter \<open>pa\<close> of the
  model, typed so that a parsed address is an IPv4 address of four bytes or an IPv6
  address of 128 bits. Everything built on top of it (\<open>ParseIP\<close>, \<open>ParseCIDR\<close>,
  \<open>Contains\<close>) is written out as the library computes it.
\<close>

type_synonym byte = "8 word"

datatype Addr = Addr4 byte byte byte byte | Addr6 "128 word"

type_synonym addr_parser = "string \<Rightarrow> Addr option"

definition v4InV6Prefix :: "byte list" where
  "v4InV6Prefix = [0, 0, 0, 0, 0, 0, 0, 0, 0, 0, 0xff, 0xff]"

definition be_bytes16 :: "128 word \<Rightarrow> byte list" where
  "be_bytes16 w = map (\<lambda>i. ucast (drop_bit (8 * (15 - i)) w)) [0..<16]"

fun As16 :: "Addr \<Rightarrow> byte list" where
  "As16 (Addr4 a b c d) = v4InV6Prefix @ [a, b, c, d]"
| "As16 (Addr6 w) = be_bytes16 w"

fun BitLen :: "Addr \<Rightarrow> nat" where
  "BitLen (Addr4 a b c d) = 32"
| "BitLen (Addr6 w) = 128"

text \<open>\<open>net.ParseIP\<close>: the 16-byte form of the address, or nil.\<close>

definition ParseIP :: "addr_parser \<Rightarrow> string \<Rightarrow> byte list" where
  "ParseIP pa s = (case pa s of None \<Rightarrow> [] | Some a \<Rightarrow> As16 a)"

text \<open>\<open>IP.To4\<close>: the 4-byte form of an IPv4 or IPv4-mapped address, nil otherwise.\<close>

definition To4 :: "byte list \<Rightarrow> byte list" where
  "To4 ip =
     (if length ip = 4 then ip
      else if length ip = 16 \<and> take 12 ip = v4InV6Prefix then drop 12 ip
      else [])"

text \<open>\<open>dtoi\<close>: a decimal number at the start of the string, how many characters it
  took, and whether there was one (numbers from \<open>0xFFFFFF\<close> on are refused).\<close>

definition is_digit :: "char \<Rightarrow> bool" where
  "is_digit c = (48 \<le> (of_char c :: nat) \<and> (of_char c :: nat) \<le> 57)"

fun dtoi_loop :: "string \<Rightarrow> nat \<Rightarrow> nat \<Rightarrow> nat \<times> nat \<times> bool" where
  "dtoi_loop [] n i = (if i = 0 then (0, 0, False) else (n, i, True))"
| "dtoi_loop (c # cs) n i =
     (if is_digit c then
        (let n' = n * 10 + (of_char c - 48) in
         if n' \<ge> 0xFFFFFF then (0xFFFFFF, i, False) else dtoi_loop cs n' (i + 1))
      else if i = 0 then (0, 0, False) else (n, i, True))"

definition dtoi :: "string \<Rightarrow> nat \<times> nat \<times> bool" where
  "dtoi s = dtoi_loop s 0 0"

text \<open>\<open>net.CIDRMask ones bits\<close>: \<open>ones\<close> one-bits followed by zeros, \<open>bits div 8\<close>
  bytes long; nil for a width other than 32 or 128 or for too many ones.\<close>

fun CIDRMask_loop :: "nat \<Rightarrow> nat \<Rightarrow> byte list" where
  "CIDRMask_loop 0 n = []"
| "CIDRMask_loop (Suc l) n =
     (if n \<ge> 8 then 0xff # CIDRMask_loop l (n - 8)
      else NOT (drop_bit n (0xff :: byte)) # CIDRMask_loop l 0)"

definition CIDRMask :: "nat \<Rightarrow> nat \<Rightarrow> byte list" where
  "CIDRMask ones bits =
     (if bits \<noteq> 32 \<and> bits \<noteq> 128 then []
      else if ones > bits then []
      else CIDRMask_loop (bits div 8) ones)"

text \<open>\<open>IP.Mask\<close>: the address with the mask applied, after bringing both to the
  same length; nil when the lengths still differ.\<close>

definition IP_Mask :: "byte list \<Rightarrow> byte list \<Rightarrow> byte list" where
  "IP_Mask ip msk =
     (let msk' = (if length msk = 16 \<and> length ip = 4 \<and> list_all (\<lambda>b. b = 0xff) (take 12 msk)
                  then drop 12 msk else msk);
          ip' = (if length msk' = 4 \<and> length ip = 16 \<and> take 12 ip = v4InV6Prefix
                 then drop 12 ip else ip)
      in if length ip' \<noteq> length msk' then []
         else map (\<lambda>(a, m). a AND m) (zip ip' msk'))"

record IPNet =
  IP :: "byte list"
  Mask :: "byte list"

fun IndexByteString :: "string \<Rightarrow> char \<Rightarrow> nat option" where
  "IndexByteString [] c = None"
| "IndexByteString (x # xs) c =
     (if x = c then Some 0 else map_option Suc (IndexByteString xs c))"

text \<open>\<open>net.ParseCIDR\<close>. The Go function returns \<open>(IP, *IPNet, error)\<close>; the
  repository keeps only the \<open>*IPNet\<close>, which is nil (\<open>None\<close>) exactly when the
  error is set.\<close>

definition ParseCIDR :: "addr_parser \<Rightarrow> string \<Rightarrow> IPNet option" where
  "ParseCIDR pa s =
     (case IndexByteString s (CHR ''/'') of
        None \<Rightarrow> None
      | Some i \<Rightarrow>
          (case pa (take i s) of
             None \<Rightarrow> None
           | Some a \<Rightarrow>
               (case dtoi (drop (i + 1) s) of
                  (n, j, ok) \<Rightarrow>
                    if ok \<and> j = length (drop (i + 1) s) \<and> n \<le> BitLen a
                    then Some \<lparr>IP = IP_Mask (As16 a) (CIDRMask n (BitLen a)),
                               Mask = CIDRMask n (BitLen a)\<rparr>
                    else None)))"

text \<open>\<open>networkNumberAndMask\<close>: the network number and the mask of a net at one
  length (4 or 16 bytes), or the pair of nils.\<close>

definition networkNumberAndMask :: "IPNet \<Rightarrow> byte list \<times> byte list" where
  "networkNumberAndMask n =
     (let ip = (if To4 (IP n) = [] then IP n else To4 (IP n)) in
      if To4 (IP n) = [] \<and> length ip \<noteq> 16 then ([], [])
      else if length (Mask n) = 4 then (if length ip \<noteq> 4 then ([], []) else (ip, Mask n))
      else if length (Mask n) = 16 then
        (if length ip = 4 then (ip, drop 12 (Mask n)) else (ip, Mask n))
      else ([], []))"

datatype panic = NilPointerDereference

text \<open>\<open>(*IPNet).Contains\<close>. The receiver is a pointer; \<open>networkNumberAndMask\<close>
  reads its field \<open>IP\<close> first, which panics on the nil pointer.\<close>

definition Contains :: "IPNet option \<Rightarrow> byte list \<Rightarrow> panic + bool" where
  "Contains n ip =
     (case n of
        None \<Rightarrow> Inl NilPointerDereference
      | Some net \<Rightarrow>
          (case networkNumberAndMask net of
             (nn, m) \<Rightarrow>
               (let ip' = (if To4 ip \<noteq> [] then To4 ip else ip); l = length ip' in
                if l \<noteq> length nn then Inr False
                else Inr (list_all (\<lambda>i. (nn ! i) AND (m ! i) = (ip' ! i) AND (m ! i)) [0..<l]))))"

section \<open>The admission filter\<close>

text \<open>\<open>isAllowedIP\<close> (main.go): parse the caller's address once, then walk the
  allowed ranges in order and stop at the first that contains it. The error of
  \<open>net.ParseCIDR\<close> is discarded and the net pointer used as it is.\<close>

fun isAllowedIP_loop :: "addr_parser \<Rightarrow> byte list \<Rightarrow> string list \<Rightarrow> panic + bool" where
  "isAllowedIP_loop pa clientIP [] = Inr False"
| "isAllowedIP_loop pa clientIP (allowedIP # rest) =
     (case Contains (ParseCIDR pa allowedIP) clientIP of
        Inl p \<Rightarrow> Inl p
      | Inr True \<Rightarrow> Inr True
      | Inr False \<Rightarrow> isAllowedIP_loop pa clientIP rest)"

definition isAllowedIP :: "addr_parser \<Rightarrow> string \<Rightarrow> string list \<Rightarrow> panic + bool" where
  "isAllowedIP pa ip allowedIPs = isAllowedIP_loop pa (ParseIP pa ip) allowedIPs"

text \<open>The dotted-decimal branch of the address grammar (\<open>netip.parseIPv4\<close>): four
  decimal fields of at most 255 without leading zeros, separated by single dots. It is
  the instance of the parameter \<open>pa\<close> at which the examples below are evaluated; every
  address in them is dotted-decimal or has no dot and no colon at all, where the
  library's answer is the one given here. (A string with a colon goes to the IPv6
  branch of the library, which this instance does not have.)\<close>

fun parseIPv4_loop :: "string \<Rightarrow> bool \<Rightarrow> bool \<Rightarrow> nat \<Rightarrow> nat \<Rightarrow> nat list \<Rightarrow> nat list option" where
  "parseIPv4_loop [] at_start prevdot val digLen octets =
     (if length octets < 3 then None else Some (octets @ [val]))"
| "parseIPv4_loop (c # cs) at_start prevdot val digLen octets =
     (if is_digit c then
        (if digLen = 1 \<and> val = 0 then None
         else if val * 10 + (of_char c - 48) > 255 then None
         else parseIPv4_loop cs False False (val * 10 + (of_char c - 48)) (digLen + 1) octets)
      else if c = CHR ''.'' then
        (if at_start \<or> cs = [] \<or> prevdot then None
         else if length octets = 3 then None
         else parseIPv4_loop cs False True 0 0 (octets @ [val]))
      else None)"

definition parseIPv4 :: addr_parser where
  "parseIPv4 s =
     (case parseIPv4_loop s True False 0 0 [] of
        Some [a, b, c, d] \<Rightarrow> Some (Addr4 (of_nat a) (of_nat b) (of_nat c) (of_nat d))
      | _ \<Rightarrow> None)"

section \<open>The trusted ranges and their refresh\<close>

record GithubMetaAPIResponse =
  Actions :: "string list"

text \<open>What \<open>http.Get\<close> and the JSON decoder of the response body give
  \<open>fetchGithubActionsIPs\<close>: a transport error, or a response with its status code,
  its status line and the outcome of decoding its body (the decoded value; on a decode
  error, whatever the decoder had filled in by then).\<close>

datatype decode_outcome =
    Decoded GithubMetaAPIResponse
  | DecodeFailed GithubMetaAPIResponse string

datatype http_get =
    TransportError string
  | Response nat string decode_outcome

definition fetchGithubActionsIPs :: "http_get \<Rightarrow> GithubMetaAPIResponse \<times> string option" where
  "fetchGithubActionsIPs h =
     (case h of
        TransportError e \<Rightarrow> (\<lparr>Actions = []\<rparr>, Some e)
      | Response code st b \<Rightarrow>
          if code \<noteq> 200 then (\<lparr>Actions = []\<rparr>, Some (''github api error: '' @ st))
          else (case b of
                  DecodeFailed partial e \<Rightarrow> (partial, Some e)
                | Decoded r \<Rightarrow> (r, None)))"

section \<open>JSON documents and the codec of the content column\<close>

text \<open>
  The \<open>content\<close> column holds a JSON text. It is modelled by the JSON value the text
  denotes: writing a value as text and reading the text back is the work of
  \<open>encoding/json\<close> and of the database, and a \<open>JString\<close> carries the string the text
  denotes, which is valid UTF-8. A Go string is any sequence of bytes: \<open>json.Marshal\<close>
  writes it coerced to valid UTF-8, each byte that does not start a well-formed
  sequence replaced by U+FFFD.
\<close>

datatype json =
    JNull
  | JBool bool
  | JNumber string
  | JString string
  | JArray "json list"
  | JObject "(string \<times> json) list"

record LockfileContent =
  ID :: string
  Path :: string
  Url :: string
  Hash :: string

text \<open>A Go slice is nil or a list: \<open>None\<close> is the nil slice.\<close>

type_synonym LockfileContentArray = "LockfileContent list option"

text \<open>\<open>utf8.DecodeRuneInString\<close>, as far as the encoder uses it: the number of bytes of
  the well-formed sequence at the start of the string, or 0 when there is none (the
  decoder then reports \<open>RuneError\<close> of size 1). Overlong forms, surrogates and values
  above U+10FFFF are not well-formed.\<close>

definition byte_in :: "string \<Rightarrow> nat \<Rightarrow> nat \<Rightarrow> nat \<Rightarrow> bool" where
  "byte_in cs i lo hi =
     (i < length cs \<and> lo \<le> (of_char (cs ! i) :: nat) \<and> (of_char (cs ! i) :: nat) \<le> hi)"

definition rune_size :: "string \<Rightarrow> nat" where
  "rune_size s =
     (case s of
        [] \<Rightarrow> 0
      | c # cs \<Rightarrow>
          (let b = (of_char c :: nat) in
           if b < 0x80 then 1
           else if 0xC2 \<le> b \<and> b \<le> 0xDF then (if byte_in cs 0 0x80 0xBF then 2 else 0)
           else if b = 0xE0 then
             (if byte_in cs 0 0xA0 0xBF \<and> byte_in cs 1 0x80 0xBF then 3 else 0)
           else if b = 0xED then
             (if byte_in cs 0 0x80 0x9F \<and> byte_in cs 1 0x80 0xBF then 3 else 0)
           else if 0xE1 \<le> b \<and> b \<le> 0xEF then
             (if byte_in cs 0 0x80 0xBF \<and> byte_in cs 1 0x80 0xBF then 3 else 0)
           else if b = 0xF0 then
             (if byte_in cs 0 0x90 0xBF \<and> byte_in cs 1 0x80 0xBF \<and> byte_in cs 2 0x80 0xBF
              then 4 else 0)
           else if b = 0xF4 then
             (if byte_in cs 0 0x80 0x8F \<and> byte_in cs 1 0x80 0xBF \<and> byte_in cs 2 0x80 0xBF
              then 4 else 0)
           else if 0xF1 \<le> b \<and> b \<le> 0xF3 then
             (if byte_in cs 0 0x80 0xBF \<and> byte_in cs 1 0x80 0xBF \<and> byte_in cs 2 0x80 0xBF
              then 4 else 0)
           else 0))"

text \<open>The string as \<open>json.Marshal\<close> writes it: well-formed sequences are kept, every
  other byte becomes U+FFFD (the bytes \<open>EF BF BD\<close>).\<close>

fun appendString :: "string \<Rightarrow> string" where
  "appendString [] = []"
| "appendString (c # cs) =
     (if rune_size (c # cs) = 0 then [CHR 0xEF, CHR 0xBF, CHR 0xBD] @ appendString cs
      else c # take (rune_size (c # cs) - 1) cs @ appendString (drop (rune_size (c # cs) - 1) cs))"

definition Marshal_LockfileContent :: "LockfileContent \<Rightarrow> json" where
  "Marshal_LockfileContent e =
     JObject [(''id'', JString (appendString (LockfileContent.ID e))),
              (''path'', JString (appendString (Path e))),
              (''url'', JString (appendString (Url e))),
              (''hash'', JString (appendString (Hash e)))]"

text \<open>\<open>LockfileContentArray.Value\<close>: \<open>json.Marshal\<close> of the slice (\<open>null\<close> for the
  nil slice). Marshalling a slice of structs of strings has no error case.\<close>

definition Value :: "LockfileContentArray \<Rightarrow> json" where
  "Value lcArray =
     (case lcArray of None \<Rightarrow> JNull | Some es \<Rightarrow> JArray (map Marshal_LockfileContent es))"

text \<open>\<open>json.Unmarshal\<close> matches an object key against a field name exactly or, failing
  that, up to case folding. The only characters outside ASCII that fold to an ASCII
  letter are U+017F (long s) and U+212A (Kelvin sign).\<close>

fun foldName :: "string \<Rightarrow> string" where
  "foldName [] = []"
| "foldName (c # cs) =
     (if 97 \<le> (of_char c :: nat) \<and> (of_char c :: nat) \<le> 122
      then char_of ((of_char c :: nat) - 32) # foldName cs
      else if c = CHR 0xC5 \<and> take 1 cs = [CHR 0xBF] then CHR ''S'' # foldName (drop 1 cs)
      else if c = CHR 0xE2 \<and> take 2 cs = [CHR 0x84, CHR 0xAA] then CHR ''K'' # foldName (drop 2 cs)
      else c # foldName cs)"

definition name_matches :: "string \<Rightarrow> string \<Rightarrow> bool" where
  "name_matches name key = (key = name \<or> foldName key = foldName name)"

datatype json_error = UnmarshalTypeError

fun unmarshal_string :: "json \<Rightarrow> string \<Rightarrow> json_error + string" where
  "unmarshal_string (JString s) cur = Inr s"
| "unmarshal_string JNull cur = Inr cur"
| "unmarshal_string v cur = Inl UnmarshalTypeError"

fun unmarshal_fields :: "(string \<times> json) list \<Rightarrow> LockfileContent \<Rightarrow> json_error + LockfileContent" where
  "unmarshal_fields [] e = Inr e"
| "unmarshal_fields ((k, v) # kvs) e =
     (if name_matches ''id'' k then
        (case unmarshal_string v (LockfileContent.ID e) of
           Inl err \<Rightarrow> Inl err | Inr s \<Rightarrow> unmarshal_fields kvs (e\<lparr>LockfileContent.ID := s\<rparr>))
      else if name_matches ''path'' k then
        (case unmarshal_string v (Path e) of
           Inl err \<Rightarrow> Inl err | Inr s \<Rightarrow> unmarshal_fields kvs (e\<lparr>Path := s\<rparr>))
      else if name_matches ''url'' k then
        (case unmarshal_string v (Url e) of
           Inl err \<Rightarrow> Inl err | Inr s \<Rightarrow> unmarshal_fields kvs (e\<lparr>Url := s\<rparr>))
      else if name_matches ''hash'' k then
        (case unmarshal_string v (Hash e) of
           Inl err \<Rightarrow> Inl err | Inr s \<Rightarrow> unmarshal_fields kvs (e\<lparr>Hash := s\<rparr>))
      else unmarshal_fields kvs e)"

fun unmarshal_LockfileContent :: "json \<Rightarrow> LockfileContent \<Rightarrow> json_error + LockfileContent" where
  "unmarshal_LockfileContent (JObject kvs) e = unmarshal_fields kvs e"
| "unmarshal_LockfileContent JNull e = Inr e"
| "unmarshal_LockfileContent v e = Inl UnmarshalTypeError"

definition zero_LockfileContent :: LockfileContent where
  "zero_LockfileContent = \<lparr>ID = [], Path = [], Url = [], Hash = []\<rparr>"

text \<open>The elements of a JSON array are decoded in order, each into the element the
  slice already has at that index, or into a zero element past its end.\<close>

fun unmarshal_elements :: "json list \<Rightarrow> LockfileContent list \<Rightarrow> json_error + LockfileContent list" where
  "unmarshal_elements [] cur = Inr []"
| "unmarshal_elements (v # vs) cur =
     (case unmarshal_LockfileContent v (case cur of [] \<Rightarrow> zero_LockfileContent | c # cs \<Rightarrow> c) of
        Inl err \<Rightarrow> Inl err
      | Inr x \<Rightarrow>
          (case unmarshal_elements vs (tl cur) of
             Inl err \<Rightarrow> Inl err
           | Inr xs \<Rightarrow> Inr (x # xs)))"

fun Unmarshal :: "json \<Rightarrow> LockfileContentArray \<Rightarrow> json_error + LockfileContentArray" where
  "Unmarshal JNull cur = Inr None"
| "Unmarshal (JArray vs) cur =
     (case unmarshal_elements vs (case cur of None \<Rightarrow> [] | Some es \<Rightarrow> es) of
        Inl err \<Rightarrow> Inl err
      | Inr xs \<Rightarrow> Inr (Some xs))"
| "Unmarshal v cur = Inl UnmarshalTypeError"

text \<open>What the database driver hands to \<open>Scan\<close>: nil, bytes, a string, or a value of
  another Go type.\<close>

datatype driver_value = DNil | DBytes json | DString json | DOther

datatype scan_error = JsonError json_error | UnsupportedType

text \<open>\<open>(*LockfileContentArray).Scan\<close>; \<open>lcArray\<close> is what the receiver points to.\<close>

fun Scan :: "driver_value \<Rightarrow> LockfileContentArray \<Rightarrow> scan_error + LockfileContentArray" where
  "Scan DNil lcArray = Inr lcArray"
| "Scan (DBytes v) lcArray =
     (case Unmarshal v lcArray of Inl e \<Rightarrow> Inl (JsonError e) | Inr a \<Rightarrow> Inr a)"
| "Scan (DString v) lcArray =
     (case Unmarshal v lcArray of Inl e \<Rightarrow> Inl (JsonError e) | Inr a \<Rightarrow> Inr a)"
| "Scan DOther lcArray = Inl UnsupportedType"

section \<open>The lockfiles table\<close>

type_synonym uuid = "128 word"
type_synonym timestamp = int

text \<open>A row of \<open>TableSchema\<close> (the column \<open>id\<close> is \<open>row_id\<close> here: \<open>id\<close> is the
  identity function of HOL), with a value in every column, as the statement of
  \<open>PutLockfileHandler\<close> writes it. The database is the table, or \<open>None\<close> while the
  table does not exist.\<close>

record lockfiles_row =
  row_id :: uuid
  repository_id :: string
  repository_name :: string
  content :: json
  created_at :: timestamp
  updated_at :: timestamp

type_synonym database = "lockfiles_row list option"

text \<open>What the storage engine supplies when a statement runs: its clock
  (\<open>CURRENT_TIMESTAMP\<close>), the value of \<open>uuid_generate_v4()\<close>, and whether the
  statement fails on the way (no connection, a value the engine refuses such as a name
  longer than \<open>VARCHAR(255)\<close>). A failed statement changes nothing.\<close>

record sql_env =
  CURRENT_TIMESTAMP :: timestamp
  uuid_generate_v4 :: uuid
  driver_error :: "string option"

datatype db_error = ErrNoRows | DriverError string | ScanFailed scan_error

text \<open>The statement of \<open>PutLockfileHandler\<close>: \<open>INSERT ... ON CONFLICT (repository_id)
  DO UPDATE SET content, repository_name, updated_at\<close>. A new row takes the defaults of
  the schema for \<open>id\<close> and \<open>created_at\<close>; \<open>id\<close> is the primary key.\<close>

definition upsert :: "sql_env \<Rightarrow> database \<Rightarrow> string \<Rightarrow> string \<Rightarrow> json \<Rightarrow> db_error + database" where
  "upsert env db rid name c =
     (case driver_error env of
        Some e \<Rightarrow> Inl (DriverError e)
      | None \<Rightarrow>
          (case db of
             None \<Rightarrow> Inl (DriverError ''relation lockfiles does not exist'')
           | Some rows \<Rightarrow>
               if rid \<in> repository_id ` set rows then
                 Inr (Some (map (\<lambda>r. if repository_id r = rid
                                      then r\<lparr>content := c, repository_name := name,
                                             updated_at := CURRENT_TIMESTAMP env\<rparr>
                                      else r) rows))
               else if uuid_generate_v4 env \<in> row_id ` set rows then
                 Inl (DriverError ''duplicate key value violates unique constraint lockfiles_pkey'')
               else
                 Inr (Some (rows @ [\<lparr>row_id = uuid_generate_v4 env, repository_id = rid,
                                     repository_name = name, content = c,
                                     created_at = CURRENT_TIMESTAMP env,
                                     updated_at = CURRENT_TIMESTAMP env\<rparr>]))))"

text \<open>The Go struct a row is read into.\<close>

record Lockfile =
  ID :: uuid
  RepositoryName :: string
  RepositoryID :: string
  Content :: LockfileContentArray
  CreatedAt :: timestamp
  UpdatedAt :: timestamp

text \<open>\<open>db.Get(&lockfile, "SELECT * FROM lockfiles WHERE repository_id = $1", ...)\<close>:
  the first row of the result is scanned into a fresh \<open>Lockfile\<close>, the content column
  through \<open>Scan\<close>; an empty result is \<open>sql.ErrNoRows\<close>.\<close>

definition db_Get :: "sql_env \<Rightarrow> database \<Rightarrow> string \<Rightarrow> db_error + Lockfile" where
  "db_Get env db rid =
     (case driver_error env of
        Some e \<Rightarrow> Inl (DriverError e)
      | None \<Rightarrow>
          (case db of
             None \<Rightarrow> Inl (DriverError ''relation lockfiles does not exist'')
           | Some rows \<Rightarrow>
               (case filter (\<lambda>r. repository_id r = rid) rows of
                  [] \<Rightarrow> Inl ErrNoRows
                | r # rest \<Rightarrow>
                    (case Scan (DBytes (content r)) None of
                       Inl e \<Rightarrow> Inl (ScanFailed e)
                     | Inr c \<Rightarrow>
                         Inr \<lparr>ID = row_id r, RepositoryName = repository_name r,
                              RepositoryID = repository_id r, Content = c,
                              CreatedAt = created_at r, UpdatedAt = updated_at r\<rparr>))))"

section \<open>The request handlers\<close>

record PutLockfileRequest =
  RepositoryName :: string
  Posts :: LockfileContentArray

text \<open>\<open>c.ShouldBindJSON(&request)\<close> decodes the body into the request struct and then
  checks the struct against its \<open>binding\<close> tags. The decoding is the library's; its
  outcome is the input here (the strings of a decoded request are valid UTF-8: the
  decoder too replaces every other byte by U+FFFD). The tags are those of the source: \<open>required\<close> on
  \<open>RepositoryName\<close> (a string: it must not be empty) and \<open>required\<close> on \<open>Posts\<close>
  (a slice: it must not be nil). The validator checks the elements of a slice only
  under a \<open>dive\<close> tag, which \<open>Posts\<close> does not carry, so the \<open>required\<close> tags on the
  fields of \<open>LockfileContent\<close> are not consulted for the elements of \<open>Posts\<close>.\<close>

datatype request_body = BodyNotDecodable | BodyDecoded PutLockfileRequest

datatype bind_error = DecodeError | ValidationErrors "string list"

definition validate_PutLockfileRequest :: "PutLockfileRequest \<Rightarrow> string list" where
  "validate_PutLockfileRequest r =
     (if PutLockfileRequest.RepositoryName r = [] then [''RepositoryName''] else []) @
     (if Posts r = None then [''Posts''] else [])"

definition ShouldBindJSON :: "request_body \<Rightarrow> bind_error + PutLockfileRequest" where
  "ShouldBindJSON b =
     (case b of
        BodyNotDecodable \<Rightarrow> Inl DecodeError
      | BodyDecoded r \<Rightarrow>
          if validate_PutLockfileRequest r = [] then Inr r
          else Inl (ValidationErrors (validate_PutLockfileRequest r)))"

text \<open>What the \<open>required\<close> tags of \<open>LockfileContent\<close> ask of one entry, and the
  validation as the specification words it: the name, the list and every field of every
  entry.\<close>

definition required_LockfileContent :: "LockfileContent \<Rightarrow> bool" where
  "required_LockfileContent e =
     (LockfileContent.ID e \<noteq> [] \<and> Path e \<noteq> [] \<and> Url e \<noteq> [] \<and> Hash e \<noteq> [])"

definition spec_valid_payload :: "PutLockfileRequest \<Rightarrow> bool" where
  "spec_valid_payload r =
     (PutLockfileRequest.RepositoryName r \<noteq> [] \<and>
      (case Posts r of None \<Rightarrow> False | Some es \<Rightarrow> list_all required_LockfileContent es))"

text \<open>A response: the status code and the \<open>gin.H\<close> payload.\<close>

datatype payload =
    Message string
  | DataNil
  | DataLockfile Lockfile
  | DataText string
  | ErrorText string
  | ErrorBind bind_error
  | ErrorDb db_error
  | NoBody

type_synonym response = "nat \<times> payload"

definition PingHandler :: response where
  "PingHandler = (200, Message ''pong'')"

definition GetLockfileHandler :: "sql_env \<Rightarrow> database \<Rightarrow> string \<Rightarrow> response" where
  "GetLockfileHandler env db repositoryId =
     (case db_Get env db repositoryId of
        Inl ErrNoRows \<Rightarrow> (200, DataNil)
      | Inl err \<Rightarrow> (500, ErrorDb err)
      | Inr lockfile \<Rightarrow> (200, DataLockfile lockfile))"

text \<open>\<open>PutLockfileHandler\<close> returns the response and the database after it. (The
  source also passes \<open>updated_at: time.Now()\<close> to the statement, which does not use it:
  the statement writes \<open>CURRENT_TIMESTAMP\<close>.)\<close>

definition PutLockfileHandler :: "sql_env \<Rightarrow> database \<Rightarrow> string \<Rightarrow> request_body \<Rightarrow> response \<times> database" where
  "PutLockfileHandler env db repositoryId b =
     (case ShouldBindJSON b of
        Inl err \<Rightarrow> ((400, ErrorBind err), db)
      | Inr request \<Rightarrow>
          (case upsert env db repositoryId (PutLockfileRequest.RepositoryName request)
                  (Value (Posts request)) of
             Inl err \<Rightarrow> ((500, ErrorDb err), db)
           | Inr db' \<Rightarrow> ((200, DataText ''lockfile updated successfully''), db')))"

text \<open>\<open>IPFilterMiddleware allowedIPs\<close> returns the handler; the handler answers 403
  and aborts (\<open>Some\<close>), or lets the request through to the next handler (\<open>None\<close>). Its
  list is the argument it was built with.\<close>

definition IPFilterMiddleware :: "addr_parser \<Rightarrow> string list \<Rightarrow> string \<Rightarrow> panic + response option" where
  "IPFilterMiddleware pa allowedIPs clientIP =
     (case isAllowedIP pa clientIP allowedIPs of
        Inl p \<Rightarrow> Inl p
      | Inr False \<Rightarrow> Inr (Some (403, ErrorText ''Access denied''))
      | Inr True \<Rightarrow> Inr None)"

section \<open>The server\<close>

text \<open>The state of the running process: the global \<open>githubActionsIPs\<close>, the list the
  PUT route's filter was built with when \<open>main\<close> registered the route
  (\<open>IPFilterMiddleware(githubActionsIPs.Actions)\<close>, evaluated once), and the
  database.\<close>

record server =
  githubActionsIPs :: GithubMetaAPIResponse
  route_allowedIPs :: "string list"
  db :: database

record put_request =
  ClientIP :: string
  repositoryId :: string
  body :: request_body

text \<open>The PUT route of \<open>gin.Default()\<close>: the recovery handler (a panic further down
  becomes an empty 500), the filter, then \<open>PutLockfileHandler\<close>.\<close>

definition PUT_lockfiles :: "addr_parser \<Rightarrow> sql_env \<Rightarrow> server \<Rightarrow> put_request \<Rightarrow> response \<times> server" where
  "PUT_lockfiles pa env s req =
     (case IPFilterMiddleware pa (route_allowedIPs s) (ClientIP req) of
        Inl p \<Rightarrow> ((500, NoBody), s)
      | Inr (Some r) \<Rightarrow> (r, s)
      | Inr None \<Rightarrow>
          (case PutLockfileHandler env (db s) (repositoryId req) (body req) of
             (r, db') \<Rightarrow> (r, s\<lparr>db := db'\<rparr>)))"

definition GET_lockfiles :: "sql_env \<Rightarrow> server \<Rightarrow> string \<Rightarrow> response \<times> server" where
  "GET_lockfiles env s rid = (GetLockfileHandler env (db s) rid, s)"

text \<open>One round of the refresh loop of \<open>main\<close>, after the sleep: the result of the
  fetch is assigned to the global, then the error is looked at (and logged).\<close>

definition refresh_tick :: "http_get \<Rightarrow> server \<Rightarrow> server" where
  "refresh_tick h s = s\<lparr>githubActionsIPs := fst (fetchGithubActionsIPs h)\<rparr>"

text \<open>\<open>initTables\<close>: the four statements, each of which the engine may fail. The result
  is the error, if any, and the database as the statements left it.\<close>

record init_env =
  exists_error :: "string option"
  empty_error :: "string option"
  drop_error :: "string option"
  create_error :: "string option"

definition create_table :: "init_env \<Rightarrow> database \<Rightarrow> string option \<times> database" where
  "create_table ie d =
     (case create_error ie of
        Some e \<Rightarrow> (Some (''failed to create table: '' @ e), d)
      | None \<Rightarrow> (None, (case d of None \<Rightarrow> Some [] | Some rows \<Rightarrow> Some rows)))"

definition initTables :: "string \<Rightarrow> init_env \<Rightarrow> database \<Rightarrow> string option \<times> database" where
  "initTables gin_mode ie d =
     (case exists_error ie of
        Some e \<Rightarrow> (Some (''failed to check if table exists: '' @ e), d)
      | None \<Rightarrow>
          (case d of
             None \<Rightarrow> create_table ie d
           | Some rows \<Rightarrow>
               (case empty_error ie of
                  Some e \<Rightarrow> (Some (''failed to check if table is empty: '' @ e), d)
                | None \<Rightarrow>
                    if rows = [] \<or> (rows \<noteq> [] \<and> gin_mode \<noteq> ''release'') then
                      (case drop_error ie of
                         Some e \<Rightarrow> (Some (''failed to drop table: '' @ e), d)
                       | None \<Rightarrow> create_table ie None)
                    else create_table ie d)))"

text \<open>\<open>main\<close> from \<open>initTables\<close> up to \<open>router.Run\<close> (the port, the connection
  string and the connection itself come before and are left out): a failure of
  \<open>initTables\<close> or of the first fetch panics; otherwise the routes are registered with
  the list just fetched. \<open>gin_mode\<close> is the value of \<open>GIN_MODE\<close>, empty when unset.\<close>

datatype startup_panic = InitFailed string | FetchFailed string

definition main_startup :: "string \<Rightarrow> init_env \<Rightarrow> http_get \<Rightarrow> database \<Rightarrow> startup_panic + server" where
  "main_startup gin_mode ie h d =
     (case initTables gin_mode ie d of
        (Some e, d') \<Rightarrow> Inl (InitFailed e)
      | (None, d') \<Rightarrow>
          (case fetchGithubActionsIPs h of
             (r, Some e) \<Rightarrow> Inl (FetchFailed e)
           | (r, None) \<Rightarrow>
               Inr \<lparr>githubActionsIPs = r, route_allowedIPs = Actions r, db = d'\<rparr>))"

section \<open>Notions the properties are stated with\<close>

text \<open>A CIDR range \<open>addr/len\<close> read as the specification reads it: the block of
  the addresses of the family of \<open>addr\<close> that share the first \<open>len\<close> bits of \<open>addr\<close>. An
  address is taken as it was parsed, in its own family: four bytes for an IPv4 address,
  sixteen for an IPv6 address (\<open>netip.Addr.AsSlice\<close>). Its bits are those of its bytes,
  most significant first.\<close>

definition byte_bits :: "byte \<Rightarrow> bool list" where
  "byte_bits b = map (\<lambda>i. bit b (7 - i)) [0..<8]"

definition bits_of :: "byte list \<Rightarrow> bool list" where
  "bits_of xs = concat (map byte_bits xs)"

definition cidr_block :: "addr_parser \<Rightarrow> string \<Rightarrow> (Addr \<times> nat) option" where
  "cidr_block pa s =
     (case IndexByteString s (CHR ''/'') of
        None \<Rightarrow> None
      | Some i \<Rightarrow>
          (case pa (take i s) of
             None \<Rightarrow> None
           | Some a \<Rightarrow>
               (case dtoi (drop (i + 1) s) of
                  (n, j, ok) \<Rightarrow>
                    if ok \<and> j = length (drop (i + 1) s) \<and> n \<le> BitLen a then Some (a, n)
                    else None)))"

fun AsSlice :: "Addr \<Rightarrow> byte list" where
  "AsSlice (Addr4 a b c d) = [a, b, c, d]"
| "AsSlice (Addr6 w) = be_bytes16 w"

definition in_block :: "Addr \<Rightarrow> Addr \<times> nat \<Rightarrow> bool" where
  "in_block a blk =
     (case blk of (b, p) \<Rightarrow>
        length (AsSlice a) = length (AsSlice b) \<and>
        take p (bits_of (AsSlice a)) = take p (bits_of (AsSlice b)))"

text \<open>The caller's address parses, and it falls within the range.\<close>

definition falls_within :: "addr_parser \<Rightarrow> string \<Rightarrow> string \<Rightarrow> bool" where
  "falls_within pa ip r =
     (case pa ip of
        None \<Rightarrow> False
      | Some a \<Rightarrow> (case cidr_block pa r of None \<Rightarrow> False | Some blk \<Rightarrow> in_block a blk))"

text \<open>IPv4-mapped IPv6 addresses \<open>::ffff:a.b.c.d\<close> (\<open>netip.Addr.Is4In6\<close>), and the IPv4
  address \<open>a.b.c.d\<close> that such an address maps (\<open>netip.Addr.Unmap\<close>; any other address
  is left as it is). For a range: \<open>::ffff:a.b.c.d/len\<close> with \<open>len\<close> at least 96 taken as
  the IPv4 range \<open>a.b.c.d/(len - 96)\<close>; any other range is left as it is.\<close>

definition Is4In6 :: "Addr \<Rightarrow> bool" where
  "Is4In6 a = (length (AsSlice a) = 16 \<and> take 12 (AsSlice a) = v4InV6Prefix)"

definition Unmap :: "Addr \<Rightarrow> Addr" where
  "Unmap a =
     (if Is4In6 a
      then Addr4 (AsSlice a ! 12) (AsSlice a ! 13) (AsSlice a ! 14) (AsSlice a ! 15)
      else a)"

definition unmap_block :: "Addr \<times> nat \<Rightarrow> Addr \<times> nat" where
  "unmap_block blk =
     (case blk of (b, p) \<Rightarrow> if Is4In6 b \<and> 96 \<le> p then (Unmap b, p - 96) else (b, p))"

text \<open>The caller's address parses, and with IPv4-mapped addresses taken as the IPv4
  addresses they map, it falls within the range.\<close>

definition falls_within_unmapped :: "addr_parser \<Rightarrow> string \<Rightarrow> string \<Rightarrow> bool" where
  "falls_within_unmapped pa ip r =
     (case pa ip of
        None \<Rightarrow> False
      | Some a \<Rightarrow>
          (case cidr_block pa r of
             None \<Rightarrow> False
           | Some blk \<Rightarrow> in_block (Unmap a) (unmap_block blk)))"

text \<open>The caller's address, if it parses, is not IPv4-mapped; the address of the
  range, if the range is well-formed, is not IPv4-mapped.\<close>

definition unmapped_caller :: "addr_parser \<Rightarrow> string \<Rightarrow> bool" where
  "unmapped_caller pa ip = (case pa ip of None \<Rightarrow> True | Some a \<Rightarrow> \<not> Is4In6 a)"

definition unmapped_range :: "addr_parser \<Rightarrow> string \<Rightarrow> bool" where
  "unmapped_range pa r = (case cidr_block pa r of None \<Rightarrow> True | Some blk \<Rightarrow> \<not> Is4In6 (fst blk))"

text \<open>\<open>utf8.ValidString\<close>: the string is a sequence of well-formed UTF-8 sequences; and
  an entry list all of whose strings are.\<close>

fun ValidString :: "string \<Rightarrow> bool" where
  "ValidString [] = True"
| "ValidString (c # cs) =
     (rune_size (c # cs) \<noteq> 0 \<and> ValidString (drop (rune_size (c # cs) - 1) cs))"

definition valid_LockfileContent :: "LockfileContent \<Rightarrow> bool" where
  "valid_LockfileContent e =
     (ValidString (LockfileContent.ID e) \<and> ValidString (Path e) \<and>
      ValidString (Url e) \<and> ValidString (Hash e))"

definition valid_entries :: "LockfileContentArray \<Rightarrow> bool" where
  "valid_entries p = (case p of None \<Rightarrow> True | Some es \<Rightarrow> list_all valid_LockfileContent es)"

text \<open>An entry list with every string coerced to valid UTF-8.\<close>

definition coerced_LockfileContent :: "LockfileContent \<Rightarrow> LockfileContent" where
  "coerced_LockfileContent e =
     \<lparr>LockfileContent.ID = appendString (LockfileContent.ID e), Path = appendString (Path e),
      Url = appendString (Url e), Hash = appendString (Hash e)\<rparr>"

definition coerced_entries :: "LockfileContentArray \<Rightarrow> LockfileContentArray" where
  "coerced_entries p = map_option (map coerced_LockfileContent) p"


definition stored_ids :: "database \<Rightarrow> string set" where
  "stored_ids d = (case d of None \<Rightarrow> {} | Some rows \<Rightarrow> repository_id ` set rows)"


text \<open>A run of rounds of the refresh loop, each with what its fetch met.\<close>

fun run_ticks :: "server \<Rightarrow> http_get list \<Rightarrow> server" where
  "run_ticks s [] = s"
| "run_ticks s (h # hs) = run_ticks (refresh_tick h s) hs"

subsection \<open>The scenario of the specification\<close>

text \<open>\<open>netip.ParseAddr\<close> on dotted-decimal strings and on the two IPv6 strings used
  below: \<open>::\<close> is the address of 128 zero bits, and \<open>::ffff:10.1.2.3\<close> the IPv4-mapped
  address of \<open>10.1.2.3\<close>.\<close>

definition parseAddr_sample :: addr_parser where
  "parseAddr_sample s =
     (if s = ''::'' then Some (Addr6 0)
      else if s = ''::ffff:10.1.2.3'' then Some (Addr6 0xFFFF0A010203)
      else parseIPv4 s)"



text \<open>The first fetch returns the range \<open>10.0.0.0/8\<close>; a later one returns
  \<open>192.168.0.0/16\<close>. The write is \<open>Put("repo-1", "My Repo", [{a, /p, http://x, h1}])\<close>.\<close>

definition no_init_errors :: init_env where
  "no_init_errors = \<lparr>exists_error = None, empty_error = None, drop_error = None, create_error = None\<rparr>"

definition fetch_10 :: http_get where
  "fetch_10 = Response 200 ''200 OK'' (Decoded \<lparr>Actions = [''10.0.0.0/8'']\<rparr>)"

definition fetch_192 :: http_get where
  "fetch_192 = Response 200 ''200 OK'' (Decoded \<lparr>Actions = [''192.168.0.0/16'']\<rparr>)"

definition fetch_unavailable :: http_get where
  "fetch_unavailable = Response 503 ''503 Service Unavailable'' (Decoded \<lparr>Actions = []\<rparr>)"

definition server_10 :: server where
  "server_10 = \<lparr>githubActionsIPs = \<lparr>Actions = [''10.0.0.0/8'']\<rparr>,
                 route_allowedIPs = [''10.0.0.0/8''], db = Some []\<rparr>"

definition engine_at :: "timestamp \<Rightarrow> uuid \<Rightarrow> sql_env" where
  "engine_at t u = \<lparr>CURRENT_TIMESTAMP = t, uuid_generate_v4 = u, driver_error = None\<rparr>"

definition entry_a :: LockfileContent where
  "entry_a = \<lparr>LockfileContent.ID = ''a'', Path = ''/p'', Url = ''http://x'', Hash = ''h1''\<rparr>"

definition my_repo :: PutLockfileRequest where
  "my_repo = \<lparr>RepositoryName = ''My Repo'', Posts = Some [entry_a]\<rparr>"

definition my_repo_renamed :: PutLockfileRequest where
  "my_repo_renamed = \<lparr>RepositoryName = ''My Repo 2'', Posts = Some []\<rparr>"

definition my_repo_blank_entry :: PutLockfileRequest where
  "my_repo_blank_entry = \<lparr>RepositoryName = ''My Repo'', Posts = Some [zero_LockfileContent]\<rparr>"

definition row_at :: "timestamp \<Rightarrow> timestamp \<Rightarrow> PutLockfileRequest \<Rightarrow> lockfiles_row" where
  "row_at created updated r =
     \<lparr>row_id = 1, repository_id = ''repo-1'',
      repository_name = PutLockfileRequest.RepositoryName r, content = Value (Posts r),
      created_at = created, updated_at = updated\<rparr>"

definition put_from :: "string \<Rightarrow> PutLockfileRequest \<Rightarrow> put_request" where
  "put_from ip r = \<lparr>ClientIP = ip, repositoryId = ''repo-1'', body = BodyDecoded r\<rparr>"

definition updated_ok :: response where
  "updated_ok = (200, DataText ''lockfile updated successfully'')"

section \<open>Facts about the admission filter\<close>

lemma length_CIDRMask_loop: "length (CIDRMask_loop l n) = l"
  by (induction l arbitrary: n) auto

lemma length_CIDRMask: "n \<le> 32 \<Longrightarrow> length (CIDRMask n 32) = 4"
  "n \<le> 128 \<Longrightarrow> length (CIDRMask n 128) = 16"
  by (simp_all add: CIDRMask_def length_CIDRMask_loop)

lemma length_As16: "length (As16 a) = 16"
  by (cases a) (simp_all add: v4InV6Prefix_def be_bytes16_def)

lemma ParseCIDR_shape:
  assumes "ParseCIDR pa r = Some n"
  shows "(length (IP n) = 4 \<and> length (Mask n) = 4) \<or> (length (IP n) = 16 \<and> length (Mask n) = 16)"
proof -
  from assms obtain a k where n: "n = \<lparr>IP = IP_Mask (As16 a) (CIDRMask k (BitLen a)), Mask = CIDRMask k (BitLen a)\<rparr>"
    and k: "k \<le> BitLen a"
    by (auto simp: ParseCIDR_def split: option.splits prod.splits if_splits)
  show ?thesis
  proof (cases a)
    case (Addr4 b1 b2 b3 b4)
    with k have "length (CIDRMask k (BitLen a)) = 4" by (simp add: length_CIDRMask)
    moreover from this Addr4 have "length (IP_Mask (As16 a) (CIDRMask k (BitLen a))) = 4"
      by (simp add: IP_Mask_def v4InV6Prefix_def)
    ultimately show ?thesis using n by simp
  next
    case (Addr6 w)
    with k have m: "length (CIDRMask k (BitLen a)) = 16" by (simp add: length_CIDRMask)
    moreover from m have "length (IP_Mask (As16 a) (CIDRMask k (BitLen a))) = 16"
      by (simp add: IP_Mask_def length_As16)
    ultimately show ?thesis using n by simp
  qed
qed

lemma Contains_nil_client:
  assumes "ParseCIDR pa r = Some n"
  shows "Contains (Some n) [] = Inr False"
  using ParseCIDR_shape [OF assms]
  by (auto simp: Contains_def networkNumberAndMask_def To4_def Let_def)

lemma Contains_Some_total: "\<exists>b. Contains (Some n) ip = Inr b"
  by (cases "networkNumberAndMask n") (auto simp: Contains_def Let_def)

lemma isAllowedIP_loop_wellformed:
  assumes "\<forall>r\<in>set rs. ParseCIDR pa r \<noteq> None"
  shows "isAllowedIP_loop pa c rs = Inr (\<exists>r\<in>set rs. Contains (ParseCIDR pa r) c = Inr True)"
  using assms
proof (induction rs)
  case Nil
  then show ?case by simp
next
  case (Cons r rs)
  then obtain n where n: "ParseCIDR pa r = Some n" by auto
  obtain b where b: "Contains (Some n) c = Inr b" using Contains_Some_total by blast
  from Cons have IH: "isAllowedIP_loop pa c rs = Inr (\<exists>r\<in>set rs. Contains (ParseCIDR pa r) c = Inr True)"
    by simp
  show ?case using n b IH by (cases b) simp_all
qed

subsection \<open>Masks and prefixes\<close>

lemma length_byte_bits: "length (byte_bits b) = 8"
  by (simp add: byte_bits_def)

lemma byte_bits_inj: "byte_bits a = byte_bits b \<Longrightarrow> a = b"
proof (rule bit_word_eqI)
  fix n assume e: "byte_bits a = byte_bits b" and n: "n < LENGTH(8)"
  from e have "\<forall>i<8. bit a (7 - i) = bit b (7 - i)"
    by (simp add: byte_bits_def)
  moreover from n have "7 - n < 8" "7 - (7 - n) = n" by simp_all
  ultimately show "bit a n = bit b n" by metis
qed

lemma byte_ff: "(0xff :: byte) = - 1"
  by simp

lemma bit_255_int: "bit (255 :: int) m = (m < 8)"
proof -
  have "(255 :: int) = mask 8" by (simp add: mask_eq_exp_minus_1)
  then show ?thesis by (simp only: bit_mask_iff) simp
qed

lemma and_ff: "a AND (0xff :: byte) = a"
  by (simp add: byte_ff)

lemma bit_prefix_mask:
  "bit (NOT (drop_bit p (0xff :: byte))) n = (n < 8 \<and> 8 \<le> p + n)"
  by (auto simp: bit_not_iff bit_drop_bit_eq bit_255_int)

lemma masked_byte_eq:
  assumes "p < 8"
  shows "(a AND NOT (drop_bit p (0xff :: byte)) = b AND NOT (drop_bit p (0xff :: byte)))
       = (take p (byte_bits a) = take p (byte_bits b))"
proof -
  have l: "(a AND NOT (drop_bit p (0xff :: byte)) = b AND NOT (drop_bit p (0xff :: byte)))
          = (\<forall>n<8. 8 \<le> p + n \<longrightarrow> bit a n = bit b n)"
  proof
    assume e: "a AND NOT (drop_bit p (0xff :: byte)) = b AND NOT (drop_bit p (0xff :: byte))"
    show "\<forall>n<8. 8 \<le> p + n \<longrightarrow> bit a n = bit b n"
    proof (intro allI impI)
      fix n :: nat assume n: "n < 8" "8 \<le> p + n"
      from e have "bit (a AND NOT (drop_bit p (0xff :: byte))) n = bit (b AND NOT (drop_bit p (0xff :: byte))) n"
        by simp
      with n show "bit a n = bit b n" by (simp add: bit_and_iff bit_prefix_mask)
    qed
  next
    assume h: "\<forall>n<8. 8 \<le> p + n \<longrightarrow> bit a n = bit b n"
    show "a AND NOT (drop_bit p (0xff :: byte)) = b AND NOT (drop_bit p (0xff :: byte))"
    proof (rule bit_word_eqI)
      fix n assume "n < LENGTH(8)"
      with h show "bit (a AND NOT (drop_bit p (0xff :: byte))) n = bit (b AND NOT (drop_bit p (0xff :: byte))) n"
        by (auto simp: bit_and_iff bit_prefix_mask)
    qed
  qed
  have r: "(take p (byte_bits a) = take p (byte_bits b)) = (\<forall>i<p. bit a (7 - i) = bit b (7 - i))"
    using assms by (auto simp: byte_bits_def take_map)
  have "(\<forall>n<8. 8 \<le> p + n \<longrightarrow> bit a n = bit b n) = (\<forall>i<p. bit a (7 - i) = bit b (7 - i))"
  proof
    assume h: "\<forall>n<8. 8 \<le> p + n \<longrightarrow> bit a n = bit b n"
    show "\<forall>i<p. bit a (7 - i) = bit b (7 - i)"
    proof (intro allI impI)
      fix i assume "i < p"
      with assms have "7 - i < 8" "8 \<le> p + (7 - i)" by simp_all
      with h show "bit a (7 - i) = bit b (7 - i)" by blast
    qed
  next
    assume h: "\<forall>i<p. bit a (7 - i) = bit b (7 - i)"
    show "\<forall>n<8. 8 \<le> p + n \<longrightarrow> bit a n = bit b n"
    proof (intro allI impI)
      fix n :: nat assume n: "n < 8" "8 \<le> p + n"
      then have "7 - n < p" "7 - (7 - n) = n" by simp_all
      with h show "bit a n = bit b n" by metis
    qed
  qed
  with l r show ?thesis by simp
qed

lemma CIDRMask_loop_zero: "CIDRMask_loop l 0 = replicate l 0"
  by (induction l) simp_all

lemma all_less_Suc_shift: "(\<forall>i<Suc l. P i) = (P 0 \<and> (\<forall>i<l. P (Suc i)))"
  by (auto simp: less_Suc_eq_0_disj)

lemma prefix_mask_compare:
  assumes "length x = l" and "length y = l"
  shows "(\<forall>i<l. (x ! i) AND (CIDRMask_loop l p ! i) = (y ! i) AND (CIDRMask_loop l p ! i))
       = (take p (bits_of x) = take p (bits_of y))"
  using assms
proof (induction l arbitrary: x y p)
  case 0
  then show ?case by (simp add: bits_of_def)
next
  case (Suc l)
  then obtain a xs b ys where x: "x = a # xs" and y: "y = b # ys"
    and lx: "length xs = l" and ly: "length ys = l"
    by (cases x; cases y) auto
  show ?case
  proof (cases "8 \<le> p")
    case True
    have "(take p (bits_of x) = take p (bits_of y))
        = (byte_bits a = byte_bits b \<and> take (p - 8) (bits_of xs) = take (p - 8) (bits_of ys))"
      using True by (simp add: x y bits_of_def length_byte_bits)
    also have "\<dots> = (a = b \<and> take (p - 8) (bits_of xs) = take (p - 8) (bits_of ys))"
      using byte_bits_inj by auto
    finally show ?thesis
      using True Suc.IH [OF lx ly, of "p - 8"] by (simp add: x y all_less_Suc_shift and_ff)
  next
    case False
    then have p: "p < 8" by simp
    have "(take p (bits_of x) = take p (bits_of y)) = (take p (byte_bits a) = take p (byte_bits b))"
      using p by (simp add: x y bits_of_def length_byte_bits)
    then show ?thesis
      using False masked_byte_eq [OF p, of a b]
      by (simp add: x y all_less_Suc_shift CIDRMask_loop_zero lx ly)
  qed
qed

lemma ParseCIDR_cidr_block:
  "ParseCIDR pa r =
     map_option (\<lambda>(a, n). \<lparr>IP = IP_Mask (As16 a) (CIDRMask n (BitLen a)),
                            Mask = CIDRMask n (BitLen a)\<rparr>) (cidr_block pa r)"
  by (simp add: ParseCIDR_def cidr_block_def split: option.splits prod.splits)

lemma cidr_block_le: "cidr_block pa r = Some (b, p) \<Longrightarrow> p \<le> BitLen b"
  by (auto simp: cidr_block_def split: option.splits prod.splits if_splits)

lemma length_be_bytes16: "length (be_bytes16 w) = 16"
  by (simp add: be_bytes16_def)

lemma drop_12_of_16:
  assumes "length bs = 16"
  shows "drop 12 bs = [bs ! 12, bs ! 13, bs ! 14, bs ! 15]"
proof -
  from assms have "drop 12 bs = bs ! 12 # drop 13 bs" "drop 13 bs = bs ! 13 # drop 14 bs"
    "drop 14 bs = bs ! 14 # drop 15 bs" "drop 15 bs = bs ! 15 # drop 16 bs"
    using Cons_nth_drop_Suc [of 12 bs] Cons_nth_drop_Suc [of 13 bs]
      Cons_nth_drop_Suc [of 14 bs] Cons_nth_drop_Suc [of 15 bs]
    by simp_all
  with assms show ?thesis by simp
qed

lemma AsSlice_Unmap:
  "AsSlice (Unmap (Addr4 a b c d)) = [a, b, c, d]"
  "AsSlice (Unmap (Addr6 w)) =
     (if take 12 (be_bytes16 w) = v4InV6Prefix then drop 12 (be_bytes16 w) else be_bytes16 w)"
  using drop_12_of_16 [OF length_be_bytes16, of w]
  by (simp_all add: Unmap_def Is4In6_def length_be_bytes16)

lemma unmap_block_Addr4: "unmap_block (Addr4 a b c d, p) = (Addr4 a b c d, p)"
  by (simp add: unmap_block_def Is4In6_def)

lemma client_unmapped:
  "(if To4 (As16 a) \<noteq> [] then To4 (As16 a) else As16 a) = AsSlice (Unmap a)"
proof (cases a)
  case (Addr4 a1 a2 a3 a4)
  then show ?thesis by (simp add: To4_def v4InV6Prefix_def AsSlice_Unmap)
next
  case (Addr6 w)
  have "length (drop 12 (be_bytes16 w)) = 4" by (simp add: length_be_bytes16)
  then have "drop 12 (be_bytes16 w) \<noteq> []" by (metis length_0_conv zero_neq_numeral)
  with Addr6 show ?thesis by (simp add: To4_def length_be_bytes16 AsSlice_Unmap)
qed

lemma take_CIDRMask_loop:
  "k \<le> l \<Longrightarrow> 8 * k \<le> p \<Longrightarrow> take k (CIDRMask_loop l p) = replicate k 0xff"
proof (induction l arbitrary: k p)
  case 0
  then show ?case by simp
next
  case (Suc l)
  show ?case
  proof (cases k)
    case 0
    then show ?thesis by simp
  next
    case (Suc j)
    with Suc.prems have "j \<le> l" "8 * j \<le> p - 8" "8 \<le> p" by simp_all
    with Suc.IH [of j "p - 8"] Suc show ?thesis by simp
  qed
qed

lemma drop_CIDRMask_loop:
  "k \<le> l \<Longrightarrow> 8 * k \<le> p \<Longrightarrow> drop k (CIDRMask_loop l p) = CIDRMask_loop (l - k) (p - 8 * k)"
proof (induction l arbitrary: k p)
  case 0
  then show ?case by simp
next
  case (Suc l)
  show ?case
  proof (cases k)
    case 0
    then show ?thesis by simp
  next
    case (Suc j)
    with Suc.prems have "j \<le> l" "8 * j \<le> p - 8" "8 \<le> p" by simp_all
    with Suc.IH [of j "p - 8"] Suc show ?thesis by simp
  qed
qed

lemma prefix_mask_not_ff: "p < 8 \<Longrightarrow> NOT (drop_bit p (0xff :: byte)) \<noteq> 0xff"
proof
  assume p: "p < 8" and e: "NOT (drop_bit p (0xff :: byte)) = 0xff"
  have "bit (NOT (drop_bit p (0xff :: byte))) 0 = (8 \<le> p)" by (simp add: bit_prefix_mask)
  with p e have "\<not> bit (0xff :: byte) 0" by simp
  then show False by simp
qed

lemma nth_CIDRMask_loop_ff:
  "i < l \<Longrightarrow> CIDRMask_loop l p ! i = 0xff \<Longrightarrow> 8 * (i + 1) \<le> p"
proof (induction l arbitrary: i p)
  case 0
  then show ?case by simp
next
  case (Suc l)
  show ?case
  proof (cases "8 \<le> p")
    case True
    show ?thesis
    proof (cases i)
      case 0
      with True show ?thesis by simp
    next
      case (Suc j)
      with Suc.prems True have "j < l" "CIDRMask_loop l (p - 8) ! j = 0xff" by simp_all
      from Suc.IH [OF this] True Suc show ?thesis by simp
    qed
  next
    case False
    then have p: "p < 8" by simp
    show ?thesis
    proof (cases i)
      case 0
      with Suc.prems False prefix_mask_not_ff [OF p] show ?thesis by simp
    next
      case (Suc j)
      with Suc.prems False have "j < l" "replicate l (0 :: byte) ! j = 0xff"
        by (simp_all add: CIDRMask_loop_zero)
      then show ?thesis by simp
    qed
  qed
qed

lemma map2_and_ff:
  "length xs = k \<Longrightarrow> map (\<lambda>(a, m). a AND m) (zip xs (replicate k (0xff :: byte))) = xs"
  by (induction xs arbitrary: k) (auto simp: and_ff)

lemma and_eq_ff: "a AND m = (0xff :: byte) \<Longrightarrow> m = 0xff"
  by (simp add: byte_ff and_eq_minus_1_iff)

lemma masked_v4_mapped:
  assumes "length bs = 16"
  shows "(take 12 (map (\<lambda>(a, m). a AND m) (zip bs (CIDRMask_loop 16 p))) = v4InV6Prefix)
       = (take 12 bs = v4InV6Prefix \<and> 96 \<le> p)"
proof -
  have t: "take 12 (map (\<lambda>(a, m). a AND m) (zip bs (CIDRMask_loop 16 p)))
         = map (\<lambda>(a, m). a AND m) (zip (take 12 bs) (take 12 (CIDRMask_loop 16 p)))"
    by (simp add: take_map take_zip)
  have full: "96 \<le> p \<Longrightarrow> take 12 (map (\<lambda>(a, m). a AND m) (zip bs (CIDRMask_loop 16 p))) = take 12 bs"
  proof -
    assume "96 \<le> p"
    then have "take 12 (CIDRMask_loop 16 p) = replicate 12 0xff"
      by (intro take_CIDRMask_loop) simp_all
    with t assms show ?thesis by (simp add: map2_and_ff)
  qed
  show ?thesis
  proof (cases "96 \<le> p")
    case True
    with full show ?thesis by simp
  next
    case False
    have "take 12 (map (\<lambda>(a, m). a AND m) (zip bs (CIDRMask_loop 16 p))) \<noteq> v4InV6Prefix"
    proof
      assume e: "take 12 (map (\<lambda>(a, m). a AND m) (zip bs (CIDRMask_loop 16 p))) = v4InV6Prefix"
      have "take 12 (map (\<lambda>(a, m). a AND m) (zip bs (CIDRMask_loop 16 p))) ! 11
            = (bs ! 11) AND (CIDRMask_loop 16 p ! 11)"
        using assms by (simp add: length_CIDRMask_loop)
      with e have "(bs ! 11) AND (CIDRMask_loop 16 p ! 11) = 0xff"
        by (simp add: v4InV6Prefix_def)
      then have "CIDRMask_loop 16 p ! 11 = 0xff" by (rule and_eq_ff)
      from nth_CIDRMask_loop_ff [OF _ this] have "96 \<le> p" by simp
      with False show False by simp
    qed
    with False show ?thesis by simp
  qed
qed

lemma list_all_upt: "list_all P [0..<l] = (\<forall>i<l. P i)"
  by (auto simp: list_all_iff)

lemma masked_compare:
  assumes "length x = l" and "length y = l"
  shows "list_all (\<lambda>i. (map (\<lambda>(a, m). a AND m) (zip x (CIDRMask_loop l p)) ! i) AND (CIDRMask_loop l p ! i)
                       = (y ! i) AND (CIDRMask_loop l p ! i)) [0..<l]
       = (take p (bits_of y) = take p (bits_of x))"
proof -
  have "(\<forall>i<l. (map (\<lambda>(a, m). a AND m) (zip x (CIDRMask_loop l p)) ! i) AND (CIDRMask_loop l p ! i)
                       = (y ! i) AND (CIDRMask_loop l p ! i))
      = (\<forall>i<l. (x ! i) AND (CIDRMask_loop l p ! i) = (y ! i) AND (CIDRMask_loop l p ! i))"
    using assms by (simp add: length_CIDRMask_loop and.assoc)
  with prefix_mask_compare [OF assms, of p] show ?thesis
    by (auto simp: list_all_upt)
qed

lemma length_AsSlice: "length (AsSlice a) = 4 \<or> length (AsSlice a) = 16"
  by (cases a) (simp_all add: length_be_bytes16)

lemma Contains_v4_block:
  assumes "p \<le> 32"
  shows "Contains (Some \<lparr>IP = IP_Mask (As16 (Addr4 b1 b2 b3 b4)) (CIDRMask p 32), Mask = CIDRMask p 32\<rparr>) (As16 a)
       = Inr (length (AsSlice (Unmap a)) = 4 \<and>
              take p (bits_of (AsSlice (Unmap a))) = take p (bits_of [b1, b2, b3, b4]))"
proof -
  have m: "CIDRMask p 32 = CIDRMask_loop 4 p" using assms by (simp add: CIDRMask_def)
  have ip: "IP_Mask (As16 (Addr4 b1 b2 b3 b4)) (CIDRMask_loop 4 p)
          = map (\<lambda>(a, m). a AND m) (zip [b1, b2, b3, b4] (CIDRMask_loop 4 p))"
    by (simp add: IP_Mask_def length_CIDRMask_loop v4InV6Prefix_def)
  have nn: "networkNumberAndMask \<lparr>IP = map (\<lambda>(a, m). a AND m) (zip [b1, b2, b3, b4] (CIDRMask_loop 4 p)),
                                  Mask = CIDRMask_loop 4 p\<rparr>
          = (map (\<lambda>(a, m). a AND m) (zip [b1, b2, b3, b4] (CIDRMask_loop 4 p)), CIDRMask_loop 4 p)"
    by (simp add: networkNumberAndMask_def To4_def length_CIDRMask_loop)
  show ?thesis
  proof (cases "length (AsSlice (Unmap a)) = 4")
    case True
    with masked_compare [of "[b1, b2, b3, b4]" 4 "AsSlice (Unmap a)" p] show ?thesis
      unfolding m ip
      by (simp add: Contains_def nn client_unmapped Let_def length_CIDRMask_loop)
  next
    case False
    then show ?thesis
      unfolding m ip
      by (simp add: Contains_def nn client_unmapped Let_def length_CIDRMask_loop)
  qed
qed

lemma Contains_v6_block:
  assumes "p \<le> 128"
  shows "Contains (Some \<lparr>IP = IP_Mask (As16 (Addr6 w)) (CIDRMask p 128), Mask = CIDRMask p 128\<rparr>) (As16 a)
       = Inr (in_block (Unmap a) (unmap_block (Addr6 w, p)))"
proof -
  let ?bs = "be_bytes16 w"
  let ?m = "CIDRMask_loop 16 p"
  let ?nn = "map (\<lambda>(a, m). a AND m) (zip ?bs ?m)"
  have m: "CIDRMask p 128 = ?m" using assms by (simp add: CIDRMask_def)
  have ip: "IP_Mask (As16 (Addr6 w)) ?m = ?nn"
    by (simp add: IP_Mask_def length_CIDRMask_loop length_be_bytes16)
  have lnn: "length ?nn = 16" by (simp add: length_CIDRMask_loop length_be_bytes16)
  show ?thesis
  proof (cases "take 12 ?bs = v4InV6Prefix \<and> 96 \<le> p")
    case True
    then have mapped: "take 12 ?nn = v4InV6Prefix"
      using masked_v4_mapped [OF length_be_bytes16, of w p] by simp
    from True have dm: "drop 12 ?m = CIDRMask_loop 4 (p - 96)"
      using drop_CIDRMask_loop [of 12 16 p] by simp
    have dn: "drop 12 ?nn = map (\<lambda>(a, m). a AND m) (zip (drop 12 ?bs) (CIDRMask_loop 4 (p - 96)))"
      by (simp add: drop_map drop_zip dm)
    have l4: "length (drop 12 ?bs) = 4" by (simp add: length_be_bytes16)
    have to4: "To4 ?nn = drop 12 ?nn"
      using mapped lnn by (simp add: To4_def)
    have "length (drop 12 ?nn) = 4" using lnn by simp
    then have ne: "drop 12 ?nn \<noteq> []" by (metis list.size(3) zero_neq_numeral)
    have l4n: "length (drop 12 ?nn) = 4" using lnn by simp
    have nn0: "networkNumberAndMask \<lparr>IP = ?nn, Mask = ?m\<rparr> = (drop 12 ?nn, drop 12 ?m)"
      using ne l4n by (simp add: networkNumberAndMask_def to4 length_CIDRMask_loop Let_def)
    have nn: "networkNumberAndMask \<lparr>IP = ?nn, Mask = ?m\<rparr>
            = (map (\<lambda>(a, m). a AND m) (zip (drop 12 ?bs) (CIDRMask_loop 4 (p - 96))),
               CIDRMask_loop 4 (p - 96))"
      unfolding nn0 dn dm by simp
    from True have bp: "in_block (Unmap a) (unmap_block (Addr6 w, p))
        = (length (AsSlice (Unmap a)) = length (drop 12 ?bs) \<and>
           take (p - 96) (bits_of (AsSlice (Unmap a))) = take (p - 96) (bits_of (drop 12 ?bs)))"
      by (simp add: in_block_def unmap_block_def Is4In6_def length_be_bytes16 AsSlice_Unmap)
    show ?thesis
    proof (cases "length (AsSlice (Unmap a)) = 4")
      case l: True
      with masked_compare [OF l4 l, of "p - 96"] l4 show ?thesis
        unfolding m ip bp
        by (simp add: Contains_def nn client_unmapped Let_def length_CIDRMask_loop)
    next
      case False
      with l4 show ?thesis
        unfolding m ip bp
        by (simp add: Contains_def nn client_unmapped Let_def length_CIDRMask_loop)
    qed
  next
    case False
    then have unmapped: "take 12 ?nn \<noteq> v4InV6Prefix"
      using masked_v4_mapped [OF length_be_bytes16, of w p] by simp
    have nn: "networkNumberAndMask \<lparr>IP = ?nn, Mask = ?m\<rparr> = (?nn, ?m)"
      using unmapped lnn
      by (simp add: networkNumberAndMask_def To4_def length_CIDRMask_loop Let_def)
    from False have bp: "in_block (Unmap a) (unmap_block (Addr6 w, p))
        = (length (AsSlice (Unmap a)) = length ?bs \<and>
           take p (bits_of (AsSlice (Unmap a))) = take p (bits_of ?bs))"
      by (auto simp: in_block_def unmap_block_def Is4In6_def length_be_bytes16)
    show ?thesis
    proof (cases "length (AsSlice (Unmap a)) = 16")
      case l: True
      with masked_compare [OF length_be_bytes16 l, of w p] show ?thesis
        unfolding m ip bp
        by (simp add: Contains_def nn client_unmapped Let_def length_CIDRMask_loop length_be_bytes16)
    next
      case l: False
      then show ?thesis
        unfolding m ip bp
        by (simp add: Contains_def nn client_unmapped Let_def length_CIDRMask_loop length_be_bytes16)
    qed
  qed
qed

lemma Contains_in_block:
  assumes "cidr_block pa r = Some (b, p)"
  shows "Contains (ParseCIDR pa r) (As16 a) = Inr (in_block (Unmap a) (unmap_block (b, p)))"
proof (cases b)
  case (Addr4 b1 b2 b3 b4)
  with cidr_block_le [OF assms] have "p \<le> 32" by simp
  from Contains_v4_block [OF this, of b1 b2 b3 b4 a] assms Addr4 show ?thesis
    by (simp add: ParseCIDR_cidr_block in_block_def unmap_block_Addr4) (simp add: eval_nat_numeral)
next
  case (Addr6 w)
  with cidr_block_le [OF assms] have "p \<le> 128" by simp
  from Contains_v6_block [OF this, of w a] assms Addr6 show ?thesis
    by (simp add: ParseCIDR_cidr_block)
qed

lemma Unmap_unmapped: "\<not> Is4In6 a \<Longrightarrow> Unmap a = a"
  by (simp add: Unmap_def)

lemma unmap_block_unmapped: "\<not> Is4In6 b \<Longrightarrow> unmap_block (b, p) = (b, p)"
  by (simp add: unmap_block_def)

section \<open>Facts about the codec\<close>

lemma name_matches_own:
  "name_matches ''id'' ''id''" "name_matches ''path'' ''path''"
  "name_matches ''url'' ''url''" "name_matches ''hash'' ''hash''"
  by (simp_all add: name_matches_def)

lemma name_matches_other:
  "\<not> name_matches ''id'' ''path''" "\<not> name_matches ''id'' ''url''" "\<not> name_matches ''id'' ''hash''"
  "\<not> name_matches ''path'' ''url''" "\<not> name_matches ''path'' ''hash''"
  "\<not> name_matches ''url'' ''hash''"
  by (simp_all add: name_matches_def)

lemma unmarshal_Marshal_LockfileContent:
  "unmarshal_LockfileContent (Marshal_LockfileContent e) e0 = Inr (coerced_LockfileContent e)"
  by (simp add: Marshal_LockfileContent_def coerced_LockfileContent_def
      name_matches_own name_matches_other)

lemma unmarshal_elements_Marshal:
  "unmarshal_elements (map Marshal_LockfileContent es) cur = Inr (map coerced_LockfileContent es)"
  by (induction es arbitrary: cur) (simp_all add: unmarshal_Marshal_LockfileContent)

lemma Unmarshal_Value: "Unmarshal (Value p) cur = Inr (coerced_entries p)"
  by (cases p) (simp_all add: Value_def coerced_entries_def unmarshal_elements_Marshal)

lemma Scan_Value: "Scan (DBytes (Value p)) cur = Inr (coerced_entries p)"
  by (simp add: Unmarshal_Value)




section \<open>Facts about the store\<close>





lemma find_append_other:
  "repository_id new \<noteq> rid \<Longrightarrow>
   find (\<lambda>r. repository_id r = rid) (rows @ [new]) = find (\<lambda>r. repository_id r = rid) rows"
  by (induction rows) auto






lemma upsert_stored_ids:
  assumes "upsert env d rid name c = Inr d'"
  shows "stored_ids d' = insert rid (stored_ids d)"
proof -
  from assms obtain rows where d: "d = Some rows"
    by (cases d) (auto simp: upsert_def split: option.splits)
  show ?thesis
  proof (cases "rid \<in> repository_id ` set rows")
    case True
    with assms d have "d' = Some (map (\<lambda>r. if repository_id r = rid
                                      then r\<lparr>content := c, repository_name := name,
                                             updated_at := CURRENT_TIMESTAMP env\<rparr>
                                      else r) rows)"
      by (auto simp: upsert_def split: option.splits)
    moreover have "repository_id ` set (map (\<lambda>r. if repository_id r = rid
                                      then r\<lparr>content := c, repository_name := name,
                                             updated_at := CURRENT_TIMESTAMP env\<rparr>
                                      else r) rows) = repository_id ` set rows"
      by (induction rows) auto
    ultimately show ?thesis using True d by (auto simp: stored_ids_def)
  next
    case False
    with assms d have "d' = Some (rows @ [\<lparr>row_id = uuid_generate_v4 env, repository_id = rid,
                                     repository_name = name, content = c,
                                     created_at = CURRENT_TIMESTAMP env,
                                     updated_at = CURRENT_TIMESTAMP env\<rparr>])"
      by (auto simp: upsert_def split: option.splits if_splits)
    then show ?thesis using d by (auto simp: stored_ids_def)
  qed
qed


lemma Put_failure:
  assumes "PutLockfileHandler env d rid b = ((st, p), d')" and "st \<noteq> 200"
  shows "d' = d"
  using assms
  by (auto simp: PutLockfileHandler_def split: sum.splits)

lemma Put_stored_ids:
  "stored_ids (snd (PutLockfileHandler env d rid b)) = stored_ids d
   \<or> stored_ids (snd (PutLockfileHandler env d rid b)) = insert rid (stored_ids d)"
  by (auto simp: PutLockfileHandler_def upsert_stored_ids split: sum.splits)






lemma initTables_release_keeps:
  assumes "rid \<in> stored_ids d"
  shows "snd (initTables ''release'' ie d) = d"
proof -
  from assms obtain rows where "d = Some rows" "rid \<in> repository_id ` set rows"
    by (cases d) (auto simp: stored_ids_def)
  moreover from this have "rows \<noteq> []" by auto
  ultimately show ?thesis
    by (simp add: initTables_def create_table_def split: option.splits)
qed

lemma run_ticks_route: "route_allowedIPs (run_ticks s hs) = route_allowedIPs s"
  by (induction hs arbitrary: s) (simp_all add: refresh_tick_def)

lemma run_ticks_db: "db (run_ticks s hs) = db s"
  by (induction hs arbitrary: s) (simp_all add: refresh_tick_def)

lemma map_id_upsert:
  "map repository_id (map (\<lambda>r. if repository_id r = rid then r\<lparr>content := c, repository_name := name, updated_at := t\<rparr> else r) rows)
   = map repository_id rows"
  by (induction rows) auto

section \<open>The scenario, evaluated\<close>

lemma CIDRMask_loop_numeral:
  "CIDRMask_loop (numeral k) n =
     (if n \<ge> 8 then 0xff # CIDRMask_loop (pred_numeral k) (n - 8)
      else NOT (drop_bit n (0xff :: byte)) # CIDRMask_loop (pred_numeral k) 0)"
  by (simp only: numeral_eq_Suc CIDRMask_loop.simps)

lemma parseIPv4_10_1_2_3: "parseIPv4 ''10.1.2.3'' = Some (Addr4 10 1 2 3)"
  by (simp add: parseIPv4_def is_digit_def)

lemma parseIPv4_192_168_1_1: "parseIPv4 ''192.168.1.1'' = Some (Addr4 192 168 1 1)"
  by (simp add: parseIPv4_def is_digit_def)

lemma parseIPv4_10_0_0_0: "parseIPv4 ''10.0.0.0'' = Some (Addr4 10 0 0 0)"
  by (simp add: parseIPv4_def is_digit_def)

lemma parseIPv4_192_168_0_0: "parseIPv4 ''192.168.0.0'' = Some (Addr4 192 168 0 0)"
  by (simp add: parseIPv4_def is_digit_def)

lemma ParseCIDR_10: "ParseCIDR parseIPv4 ''10.0.0.0/8'' = Some \<lparr>IP = [10, 0, 0, 0], Mask = [255, 0, 0, 0]\<rparr>"
  by (simp add: ParseCIDR_def parseIPv4_10_0_0_0 dtoi_def is_digit_def CIDRMask_def
      CIDRMask_loop_numeral IP_Mask_def v4InV6Prefix_def)

lemma ParseCIDR_192: "ParseCIDR parseIPv4 ''192.168.0.0/16'' = Some \<lparr>IP = [192, 168, 0, 0], Mask = [255, 255, 0, 0]\<rparr>"
  by (simp add: ParseCIDR_def parseIPv4_192_168_0_0 dtoi_def is_digit_def CIDRMask_def
      CIDRMask_loop_numeral IP_Mask_def v4InV6Prefix_def)

lemma in_block_10_1_2_3: "in_block (Addr4 10 1 2 3) (Addr4 10 0 0 0, 8)"
  by (simp add: in_block_def bits_of_def byte_bits_def upt_rec bit_numeral_rec)

lemma not_in_block_192_168_1_1: "\<not> in_block (Addr4 192 168 1 1) (Addr4 10 0 0 0, 8)"
  by (simp add: in_block_def bits_of_def byte_bits_def upt_rec)

lemma ParseCIDR_not_a_cidr: "ParseCIDR pa ''not-a-cidr'' = None"
  by (simp add: ParseCIDR_def)

lemmas Contains_eval = Contains_def networkNumberAndMask_def To4_def ParseIP_def v4InV6Prefix_def

lemma isAllowedIP_10_in_10: "isAllowedIP parseIPv4 ''10.1.2.3'' [''10.0.0.0/8''] = Inr True"
  by (simp add: isAllowedIP_def ParseCIDR_10 parseIPv4_10_1_2_3 Contains_eval)

lemma isAllowedIP_192_in_10: "isAllowedIP parseIPv4 ''192.168.1.1'' [''10.0.0.0/8''] = Inr False"
  by (simp add: isAllowedIP_def ParseCIDR_10 parseIPv4_192_168_1_1 Contains_eval)

lemma isAllowedIP_192_in_192: "isAllowedIP parseIPv4 ''192.168.1.1'' [''192.168.0.0/16''] = Inr True"
  by (simp add: isAllowedIP_def ParseCIDR_192 parseIPv4_192_168_1_1 Contains_eval)

lemma isAllowedIP_10_in_192: "isAllowedIP parseIPv4 ''10.1.2.3'' [''192.168.0.0/16''] = Inr False"
  by (simp add: isAllowedIP_def ParseCIDR_192 parseIPv4_10_1_2_3 Contains_eval)

lemma be_bytes16_mapped_10_1_2_3:
  "be_bytes16 0xFFFF0A010203 = [0, 0, 0, 0, 0, 0, 0, 0, 0, 0, 0xff, 0xff, 10, 1, 2, 3]"
  by (simp add: be_bytes16_def upt_rec)

lemma parseAddr_sample_eval:
  "parseAddr_sample ''::'' = Some (Addr6 0)"
  "parseAddr_sample ''::ffff:10.1.2.3'' = Some (Addr6 0xFFFF0A010203)"
  "parseAddr_sample ''10.0.0.0'' = Some (Addr4 10 0 0 0)"
  by (simp_all add: parseAddr_sample_def parseIPv4_10_0_0_0)

lemma cidr_block_any: "cidr_block parseAddr_sample ''::/0'' = Some (Addr6 0, 0)"
  by (simp add: cidr_block_def parseAddr_sample_eval dtoi_def is_digit_def)

lemma cidr_block_sample_10: "cidr_block parseAddr_sample ''10.0.0.0/8'' = Some (Addr4 10 0 0 0, 8)"
  by (simp add: cidr_block_def parseAddr_sample_eval dtoi_def is_digit_def)

lemma Is4In6_mapped_10_1_2_3: "Is4In6 (Addr6 0xFFFF0A010203)"
  by (simp add: Is4In6_def be_bytes16_mapped_10_1_2_3 v4InV6Prefix_def)

lemma Unmap_mapped_10_1_2_3: "Unmap (Addr6 0xFFFF0A010203) = Addr4 10 1 2 3"
  by (simp add: Unmap_def Is4In6_mapped_10_1_2_3 be_bytes16_mapped_10_1_2_3)

lemma isAllowedIP_mapped_in_any:
  "isAllowedIP parseAddr_sample ''::ffff:10.1.2.3'' [''::/0''] = Inr False"
  using Contains_in_block [OF cidr_block_any, of "Addr6 0xFFFF0A010203"]
  by (simp add: isAllowedIP_def ParseIP_def parseAddr_sample_eval Unmap_mapped_10_1_2_3
      unmap_block_def in_block_def length_be_bytes16)

lemma isAllowedIP_mapped_in_10:
  "isAllowedIP parseAddr_sample ''::ffff:10.1.2.3'' [''10.0.0.0/8''] = Inr True"
  using Contains_in_block [OF cidr_block_sample_10, of "Addr6 0xFFFF0A010203"]
  by (simp add: isAllowedIP_def ParseIP_def parseAddr_sample_eval Unmap_mapped_10_1_2_3
      unmap_block_Addr4 in_block_10_1_2_3)

lemma isAllowedIP_malformed_first:
  "ParseCIDR pa r = None \<Longrightarrow> isAllowedIP pa ip (r # rs) = Inl NilPointerDereference"
  by (simp add: isAllowedIP_def Contains_def)

lemma main_startup_server_10: "main_startup ''release'' no_init_errors fetch_10 None = Inr server_10"
  by (simp add: main_startup_def initTables_def create_table_def no_init_errors_def
      fetchGithubActionsIPs_def fetch_10_def server_10_def)

lemma refresh_tick_route: "route_allowedIPs (refresh_tick h s) = route_allowedIPs s"
  by (simp add: refresh_tick_def)

lemma refresh_tick_db: "db (refresh_tick h s) = db s"
  by (simp add: refresh_tick_def)

lemma refresh_192: "githubActionsIPs (refresh_tick fetch_192 server_10) = \<lparr>Actions = [''192.168.0.0/16'']\<rparr>"
  by (simp add: refresh_tick_def fetch_192_def fetchGithubActionsIPs_def)

lemma ShouldBindJSON_my_repo: "ShouldBindJSON (BodyDecoded my_repo) = Inr my_repo"
  by (simp add: ShouldBindJSON_def validate_PutLockfileRequest_def my_repo_def)

lemma Put_my_repo_first:
  "PutLockfileHandler (engine_at t 1) (Some []) ''repo-1'' (BodyDecoded my_repo) =
     (updated_ok, Some [row_at t t my_repo])"
  by (simp add: PutLockfileHandler_def ShouldBindJSON_my_repo upsert_def engine_at_def
      row_at_def updated_ok_def)





lemma valid_entries_my_repo_renamed: "valid_entries (Posts my_repo_renamed)"
  by (simp add: my_repo_renamed_def valid_entries_def)


section \<open>The claims\<close>

subsection \<open>The admission decision and the refreshed ranges\<close>

text \<open>
  Claim C1 (the code departs from it). The server starts with the range
  \<open>10.0.0.0/8\<close>; a refresh then succeeds and replaces the global by
  \<open>192.168.0.0/16\<close>. A PUT from \<open>192.168.1.1\<close>, which the new set allows, is
  answered 403, and a PUT from \<open>10.1.2.3\<close>, which the new set does not allow, goes
  through: the route's filter still decides against the list it was built with.
\<close>

theorem refreshed_ranges_not_consulted:
  "main_startup ''release'' no_init_errors fetch_10 None = Inr server_10
   \<and> githubActionsIPs (refresh_tick fetch_192 server_10) = \<lparr>Actions = [''192.168.0.0/16'']\<rparr>
   \<and> isAllowedIP parseIPv4 ''192.168.1.1'' [''192.168.0.0/16''] = Inr True
   \<and> fst (PUT_lockfiles parseIPv4 (engine_at 1000 1) (refresh_tick fetch_192 server_10)
           (put_from ''192.168.1.1'' my_repo)) = (403, ErrorText ''Access denied'')
   \<and> isAllowedIP parseIPv4 ''10.1.2.3'' [''192.168.0.0/16''] = Inr False
   \<and> fst (PUT_lockfiles parseIPv4 (engine_at 1000 1) (refresh_tick fetch_192 server_10)
           (put_from ''10.1.2.3'' my_repo)) = updated_ok"
proof -
  have r: "route_allowedIPs (refresh_tick fetch_192 server_10) = [''10.0.0.0/8'']"
    by (simp add: refresh_tick_route server_10_def)
  have d: "db (refresh_tick fetch_192 server_10) = Some []"
    by (simp add: refresh_tick_db server_10_def)
  have a: "fst (PUT_lockfiles parseIPv4 (engine_at 1000 1) (refresh_tick fetch_192 server_10)
           (put_from ''192.168.1.1'' my_repo)) = (403, ErrorText ''Access denied'')"
    by (simp add: PUT_lockfiles_def IPFilterMiddleware_def r put_from_def isAllowedIP_192_in_10)
  have b: "fst (PUT_lockfiles parseIPv4 (engine_at 1000 1) (refresh_tick fetch_192 server_10)
           (put_from ''10.1.2.3'' my_repo)) = updated_ok"
    by (simp add: PUT_lockfiles_def IPFilterMiddleware_def r d put_from_def isAllowedIP_10_in_10
        Put_my_repo_first)
  show ?thesis
    using main_startup_server_10 refresh_192 isAllowedIP_192_in_192 a isAllowedIP_10_in_192 b
    by blast
qed

text \<open>
  Claim C2 (the code departs from it). A round of the refresh loop whose fetch fails
  (here with status 503) assigns the empty result of the failed fetch to the global:
  the snapshot \<open>10.0.0.0/8\<close> is gone after the round, and an address the snapshot
  allowed before the round is not allowed by the snapshot after it.
\<close>

theorem failed_refresh_overwrites_snapshot:
  "fetchGithubActionsIPs fetch_unavailable =
     (\<lparr>Actions = []\<rparr>, Some ''github api error: 503 Service Unavailable'')
   \<and> githubActionsIPs server_10 = \<lparr>Actions = [''10.0.0.0/8'']\<rparr>
   \<and> githubActionsIPs (refresh_tick fetch_unavailable server_10) = \<lparr>Actions = []\<rparr>
   \<and> isAllowedIP parseIPv4 ''10.1.2.3'' (Actions (githubActionsIPs server_10)) = Inr True
   \<and> isAllowedIP parseIPv4 ''10.1.2.3''
        (Actions (githubActionsIPs (refresh_tick fetch_unavailable server_10))) = Inr False"
proof -
  have f: "fetchGithubActionsIPs fetch_unavailable =
     (\<lparr>Actions = []\<rparr>, Some ''github api error: 503 Service Unavailable'')"
    by (simp add: fetchGithubActionsIPs_def fetch_unavailable_def)
  have g: "githubActionsIPs (refresh_tick fetch_unavailable server_10) = \<lparr>Actions = []\<rparr>"
    by (simp add: refresh_tick_def f)
  have s: "githubActionsIPs server_10 = \<lparr>Actions = [''10.0.0.0/8'']\<rparr>"
    by (simp add: server_10_def)
  have e: "isAllowedIP parseIPv4 ''10.1.2.3'' [] = Inr False"
    by (simp add: isAllowedIP_def)
  show ?thesis using f g s e isAllowedIP_10_in_10 by simp
qed

subsection \<open>The admission check\<close>

text \<open>
  Claim C3 (the code departs from it). With a malformed range in the set the check
  does not complete: \<open>isAllowedIP\<close> panics on the nil net as soon as the walk reaches the
  malformed range, where the set without that range gives true (first two lines) or
  false (next two). On the PUT route the panic becomes an empty 500 and the request is
  not handled.
\<close>

theorem malformed_range_panics:
  "isAllowedIP parseIPv4 ''10.1.2.3'' [''not-a-cidr'', ''10.0.0.0/8''] = Inl NilPointerDereference
   \<and> isAllowedIP parseIPv4 ''10.1.2.3'' [''10.0.0.0/8''] = Inr True
   \<and> isAllowedIP parseIPv4 ''192.168.1.1'' [''not-a-cidr''] = Inl NilPointerDereference
   \<and> isAllowedIP parseIPv4 ''192.168.1.1'' [] = Inr False
   \<and> PUT_lockfiles parseIPv4 (engine_at 1000 1)
        (server_10\<lparr>route_allowedIPs := [''not-a-cidr'', ''10.0.0.0/8'']\<rparr>)
        (put_from ''10.1.2.3'' my_repo)
      = ((500, NoBody), server_10\<lparr>route_allowedIPs := [''not-a-cidr'', ''10.0.0.0/8'']\<rparr>)"
proof -
  have a: "isAllowedIP parseIPv4 ip (''not-a-cidr'' # rs) = Inl NilPointerDereference" for ip rs
    by (rule isAllowedIP_malformed_first) (rule ParseCIDR_not_a_cidr)
  have e: "isAllowedIP parseIPv4 ''192.168.1.1'' [] = Inr False"
    by (simp add: isAllowedIP_def)
  have p: "PUT_lockfiles parseIPv4 (engine_at 1000 1)
        (server_10\<lparr>route_allowedIPs := [''not-a-cidr'', ''10.0.0.0/8'']\<rparr>)
        (put_from ''10.1.2.3'' my_repo)
      = ((500, NoBody), server_10\<lparr>route_allowedIPs := [''not-a-cidr'', ''10.0.0.0/8'']\<rparr>)"
    by (simp add: PUT_lockfiles_def IPFilterMiddleware_def put_from_def a)
  show ?thesis using a e p isAllowedIP_10_in_10 by simp
qed

text \<open>
  Claim C4, as amended. When every range of the set is a well-formed CIDR block
  \<open>addr/len\<close>, \<open>isAllowedIP\<close> returns (it does not panic), and it returns true exactly
  when the caller's address parses and, with an IPv4-mapped IPv6 address
  \<open>::ffff:a.b.c.d\<close> taken as the IPv4 address \<open>a.b.c.d\<close> and a range
  \<open>::ffff:a.b.c.d/len\<close> with \<open>len\<close> at least 96 as the IPv4 range \<open>a.b.c.d/(len - 96)\<close>,
  falls within at least one range of the set: it is of the family of the range's
  address and shares its first \<open>len\<close> bits. Where neither the caller's address nor the
  address of a range is IPv4-mapped, that is the claim as it was stated. In particular
  a caller address that does not parse is denied whatever the set holds, and every
  caller is denied against the empty set.
\<close>

theorem isAllowedIP_wellformed:
  assumes "\<forall>r\<in>set allowedIPs. cidr_block pa r \<noteq> None"
  shows "isAllowedIP pa ip allowedIPs = Inr (\<exists>r\<in>set allowedIPs. falls_within_unmapped pa ip r)
       \<and> (unmapped_caller pa ip \<and> list_all (unmapped_range pa) allowedIPs \<longrightarrow>
            isAllowedIP pa ip allowedIPs = Inr (\<exists>r\<in>set allowedIPs. falls_within pa ip r))
       \<and> (pa ip = None \<longrightarrow> isAllowedIP pa ip allowedIPs = Inr False)
       \<and> isAllowedIP pa ip [] = Inr False"
proof -
  from assms have wf: "\<forall>r\<in>set allowedIPs. ParseCIDR pa r \<noteq> None"
    by (auto simp: ParseCIDR_cidr_block)
  have loop: "isAllowedIP pa ip allowedIPs =
      Inr (\<exists>r\<in>set allowedIPs. Contains (ParseCIDR pa r) (ParseIP pa ip) = Inr True)"
    unfolding isAllowedIP_def by (rule isAllowedIP_loop_wellformed [OF wf])
  have fw: "falls_within_unmapped pa ip r = (Contains (ParseCIDR pa r) (ParseIP pa ip) = Inr True)"
    if r: "r \<in> set allowedIPs" for r
  proof (cases "pa ip")
    case None
    from r wf obtain n where n: "ParseCIDR pa r = Some n" by auto
    from Contains_nil_client [OF n] None n show ?thesis
      by (simp add: falls_within_unmapped_def ParseIP_def)
  next
    case (Some a)
    from r assms obtain b p where blk: "cidr_block pa r = Some (b, p)" by fastforce
    from Contains_in_block [OF blk, of a] Some blk show ?thesis
      by (simp add: falls_within_unmapped_def ParseIP_def)
  qed
  have 1: "isAllowedIP pa ip allowedIPs = Inr (\<exists>r\<in>set allowedIPs. falls_within_unmapped pa ip r)"
    using loop fw by auto
  have same: "falls_within_unmapped pa ip r = falls_within pa ip r"
    if c: "unmapped_caller pa ip" and u: "unmapped_range pa r" for r
  proof (cases "pa ip")
    case None
    then show ?thesis by (simp add: falls_within_unmapped_def falls_within_def)
  next
    case a: (Some a)
    show ?thesis
    proof (cases "cidr_block pa r")
      case None
      with a show ?thesis by (simp add: falls_within_unmapped_def falls_within_def)
    next
      case (Some blk)
      obtain b p where bp: "blk = (b, p)" by (cases blk)
      from c a have "Unmap a = a" by (simp add: unmapped_caller_def Unmap_unmapped)
      moreover from u Some bp have "unmap_block (b, p) = (b, p)"
        by (simp add: unmapped_range_def unmap_block_unmapped)
      ultimately show ?thesis using a Some bp
        by (simp add: falls_within_unmapped_def falls_within_def)
    qed
  qed
  have 2: "unmapped_caller pa ip \<and> list_all (unmapped_range pa) allowedIPs \<longrightarrow>
            isAllowedIP pa ip allowedIPs = Inr (\<exists>r\<in>set allowedIPs. falls_within pa ip r)"
    using 1 same by (auto simp: list_all_iff)
  have 3: "pa ip = None \<longrightarrow> isAllowedIP pa ip allowedIPs = Inr False"
    using 1 by (auto simp: falls_within_unmapped_def)
  have 4: "isAllowedIP pa ip [] = Inr False"
    by (simp add: isAllowedIP_def)
  from 1 2 3 4 show ?thesis by blast
qed

theorem isAllowedIP_wellformed_witness:
  "cidr_block parseIPv4 ''10.0.0.0/8'' = Some (Addr4 10 0 0 0, 8)
   \<and> unmapped_caller parseIPv4 ''10.1.2.3'' \<and> unmapped_caller parseIPv4 ''192.168.1.1''
   \<and> list_all (unmapped_range parseIPv4) [''10.0.0.0/8'']
   \<and> isAllowedIP parseIPv4 ''10.1.2.3'' [''10.0.0.0/8''] = Inr True
   \<and> falls_within parseIPv4 ''10.1.2.3'' ''10.0.0.0/8''
   \<and> falls_within_unmapped parseIPv4 ''10.1.2.3'' ''10.0.0.0/8''
   \<and> in_block (Addr4 10 1 2 3) (Addr4 10 0 0 0, 8)
   \<and> isAllowedIP parseIPv4 ''192.168.1.1'' [''10.0.0.0/8''] = Inr False
   \<and> \<not> falls_within parseIPv4 ''192.168.1.1'' ''10.0.0.0/8''
   \<and> \<not> falls_within_unmapped parseIPv4 ''192.168.1.1'' ''10.0.0.0/8''
   \<and> \<not> in_block (Addr4 192 168 1 1) (Addr4 10 0 0 0, 8)
   \<and> parseIPv4 ''bogus'' = None
   \<and> isAllowedIP parseIPv4 ''bogus'' [''10.0.0.0/8''] = Inr False
   \<and> cidr_block parseAddr_sample ''::/0'' = Some (Addr6 0, 0)
   \<and> cidr_block parseAddr_sample ''10.0.0.0/8'' = Some (Addr4 10 0 0 0, 8)
   \<and> isAllowedIP parseAddr_sample ''::ffff:10.1.2.3'' [''::/0'', ''10.0.0.0/8''] = Inr True
   \<and> \<not> falls_within_unmapped parseAddr_sample ''::ffff:10.1.2.3'' ''::/0''
   \<and> falls_within_unmapped parseAddr_sample ''::ffff:10.1.2.3'' ''10.0.0.0/8''"
proof -
  have blk: "cidr_block parseIPv4 ''10.0.0.0/8'' = Some (Addr4 10 0 0 0, 8)"
    by (simp add: cidr_block_def parseIPv4_10_0_0_0 dtoi_def is_digit_def)
  then have wf: "\<forall>r\<in>set [''10.0.0.0/8'']. cidr_block parseIPv4 r \<noteq> None"
    by simp
  have c1: "unmapped_caller parseIPv4 ''10.1.2.3''"
    by (simp add: unmapped_caller_def parseIPv4_10_1_2_3 Is4In6_def)
  have c2: "unmapped_caller parseIPv4 ''192.168.1.1''"
    by (simp add: unmapped_caller_def parseIPv4_192_168_1_1 Is4In6_def)
  have u: "list_all (unmapped_range parseIPv4) [''10.0.0.0/8'']"
    by (simp add: unmapped_range_def blk Is4In6_def)
  from isAllowedIP_wellformed [OF wf, of "''10.1.2.3''"] c1 u isAllowedIP_10_in_10
  have inside: "falls_within parseIPv4 ''10.1.2.3'' ''10.0.0.0/8''"
    "falls_within_unmapped parseIPv4 ''10.1.2.3'' ''10.0.0.0/8''"
    by simp_all
  from isAllowedIP_wellformed [OF wf, of "''192.168.1.1''"] c2 u isAllowedIP_192_in_10
  have outside: "\<not> falls_within parseIPv4 ''192.168.1.1'' ''10.0.0.0/8''"
    "\<not> falls_within_unmapped parseIPv4 ''192.168.1.1'' ''10.0.0.0/8''"
    by simp_all
  have bogus: "parseIPv4 ''bogus'' = None"
    by (simp add: parseIPv4_def is_digit_def)
  have denied: "isAllowedIP parseIPv4 ''bogus'' [''10.0.0.0/8''] = Inr False"
    using isAllowedIP_wellformed [OF wf, of "''bogus''"] bogus by blast
  have wf6: "\<forall>r\<in>set [''::/0'', ''10.0.0.0/8'']. cidr_block parseAddr_sample r \<noteq> None"
    by (simp add: cidr_block_any cidr_block_sample_10)
  have m0: "\<not> falls_within_unmapped parseAddr_sample ''::ffff:10.1.2.3'' ''::/0''"
    by (simp add: falls_within_unmapped_def parseAddr_sample_eval cidr_block_any
        Unmap_mapped_10_1_2_3 unmap_block_def in_block_def length_be_bytes16)
  have m10: "falls_within_unmapped parseAddr_sample ''::ffff:10.1.2.3'' ''10.0.0.0/8''"
    by (simp add: falls_within_unmapped_def parseAddr_sample_eval cidr_block_sample_10
        Unmap_mapped_10_1_2_3 unmap_block_Addr4 in_block_10_1_2_3)
  have mapped: "isAllowedIP parseAddr_sample ''::ffff:10.1.2.3'' [''::/0'', ''10.0.0.0/8''] = Inr True"
    using isAllowedIP_wellformed [OF wf6, of "''::ffff:10.1.2.3''"] m10 by simp
  show ?thesis
    using blk c1 c2 u inside outside bogus denied isAllowedIP_10_in_10 isAllowedIP_192_in_10
      in_block_10_1_2_3 not_in_block_192_168_1_1 cidr_block_any cidr_block_sample_10
      mapped m0 m10
    by simp
qed

text \<open>
  Claim C4 as stated fails for an IPv4-mapped caller. The range \<open>::/0\<close> is a
  well-formed CIDR block, the block of all IPv6 addresses; the caller address
  \<open>::ffff:10.1.2.3\<close> parses as an IPv6 address and shares the first 0 bits of \<open>::\<close>, so it
  falls within the range; and \<open>isAllowedIP\<close> returns false: \<open>Contains\<close> takes the caller
  as the four bytes of \<open>10.1.2.3\<close> and the range as sixteen, and answers false on the
  different lengths.
\<close>

theorem mapped_caller_denied_by_its_range:
  "cidr_block parseAddr_sample ''::/0'' = Some (Addr6 0, 0)
   \<and> parseAddr_sample ''::ffff:10.1.2.3'' = Some (Addr6 0xFFFF0A010203)
   \<and> in_block (Addr6 0xFFFF0A010203) (Addr6 0, 0)
   \<and> falls_within parseAddr_sample ''::ffff:10.1.2.3'' ''::/0''
   \<and> isAllowedIP parseAddr_sample ''::ffff:10.1.2.3'' [''::/0''] = Inr False"
  by (simp add: cidr_block_any parseAddr_sample_eval isAllowedIP_mapped_in_any
      falls_within_def in_block_def length_be_bytes16)

subsection \<open>Validation of a write\<close>

text \<open>
  Claim C5 (the code departs from it). A payload with a name and one entry whose four
  fields are all empty passes \<open>ShouldBindJSON\<close>, although the validation the
  specification describes rejects it, and \<open>PutLockfileHandler\<close> stores it.
\<close>

theorem blank_entry_accepted:
  "ShouldBindJSON (BodyDecoded my_repo_blank_entry) = Inr my_repo_blank_entry
   \<and> \<not> spec_valid_payload my_repo_blank_entry
   \<and> PutLockfileHandler (engine_at 1000 1) (Some []) ''repo-1'' (BodyDecoded my_repo_blank_entry)
       = (updated_ok, Some [row_at 1000 1000 my_repo_blank_entry])"
proof -
  have b: "ShouldBindJSON (BodyDecoded my_repo_blank_entry) = Inr my_repo_blank_entry"
    by (simp add: ShouldBindJSON_def validate_PutLockfileRequest_def my_repo_blank_entry_def)
  have v: "\<not> spec_valid_payload my_repo_blank_entry"
    by (simp add: spec_valid_payload_def my_repo_blank_entry_def required_LockfileContent_def
        zero_LockfileContent_def)
  have p: "PutLockfileHandler (engine_at 1000 1) (Some []) ''repo-1'' (BodyDecoded my_repo_blank_entry)
       = (updated_ok, Some [row_at 1000 1000 my_repo_blank_entry])"
    by (simp add: PutLockfileHandler_def b upsert_def engine_at_def row_at_def updated_ok_def)
  from b v p show ?thesis by simp
qed

subsection \<open>Writing and reading documents\<close>









text \<open>
  Claim C9, as amended. A document that exists still exists after a PUT request, after
  a GET request, after a round of the refresh loop, and after \<open>initTables\<close> when
  \<open>GIN_MODE\<close> is \<open>release\<close>.
\<close>

theorem documents_persist:
  assumes "rid \<in> stored_ids (db s)"
  shows "rid \<in> stored_ids (db (snd (PUT_lockfiles pa env s req)))
       \<and> rid \<in> stored_ids (db (snd (GET_lockfiles env s g)))
       \<and> rid \<in> stored_ids (db (refresh_tick h s))
       \<and> rid \<in> stored_ids (snd (initTables ''release'' ie (db s)))"
proof -
  have 1: "rid \<in> stored_ids (db (snd (PUT_lockfiles pa env s req)))"
  proof -
    have "db (snd (PUT_lockfiles pa env s req)) = db s
        \<or> db (snd (PUT_lockfiles pa env s req))
            = snd (PutLockfileHandler env (db s) (repositoryId req) (body req))"
      by (auto simp: PUT_lockfiles_def split: sum.splits option.splits prod.splits)
    then show ?thesis
      using assms Put_stored_ids [of env "db s" "repositoryId req" "body req"] by auto
  qed
  have 2: "rid \<in> stored_ids (db (snd (GET_lockfiles env s g)))"
    using assms by (simp add: GET_lockfiles_def)
  have 3: "rid \<in> stored_ids (db (refresh_tick h s))"
    using assms by (simp add: refresh_tick_def)
  have 4: "rid \<in> stored_ids (snd (initTables ''release'' ie (db s)))"
    using assms by (simp add: initTables_release_keeps)
  from 1 2 3 4 show ?thesis by blast
qed

theorem documents_persist_witness:
  "''repo-1'' \<in> stored_ids (db (server_10\<lparr>db := Some [row_at 1000 1000 my_repo]\<rparr>))
   \<and> ''repo-1'' \<in> stored_ids (db (snd (PUT_lockfiles parseIPv4 (engine_at 2000 2)
         (server_10\<lparr>db := Some [row_at 1000 1000 my_repo]\<rparr>) (put_from ''10.1.2.3'' my_repo_renamed))))
   \<and> ''repo-1'' \<in> stored_ids (snd (initTables ''release'' no_init_errors (Some [row_at 1000 1000 my_repo])))"
proof -
  have a: "''repo-1'' \<in> stored_ids (db (server_10\<lparr>db := Some [row_at 1000 1000 my_repo]\<rparr>))"
    by (simp add: stored_ids_def row_at_def)
  from documents_persist [OF a] a show ?thesis by simp
qed

text \<open>
  Claim C9 as stated fails at startup: with \<open>GIN_MODE\<close> unset (or anything but
  \<open>release\<close>), \<open>initTables\<close> drops the table that holds the document of \<open>repo-1\<close> and
  creates an empty one.
\<close>

theorem startup_drops_documents_outside_release:
  "stored_ids (Some [row_at 1000 1000 my_repo]) = {''repo-1''}
   \<and> initTables '''' no_init_errors (Some [row_at 1000 1000 my_repo]) = (None, Some [])
   \<and> stored_ids (snd (initTables '''' no_init_errors (Some [row_at 1000 1000 my_repo]))) = {}"
  by (simp add: initTables_def create_table_def no_init_errors_def stored_ids_def row_at_def)

section \<open>Further properties\<close>

text \<open>
  A payload that \<open>ShouldBindJSON\<close> rejects is answered 400 whatever the storage engine
  would do, and the database is the one before the request.
\<close>

theorem rejected_payload_leaves_store:
  assumes "ShouldBindJSON b = Inl e"
  shows "PutLockfileHandler env d rid b = ((400, ErrorBind e), d)"
  using assms by (simp add: PutLockfileHandler_def)

theorem rejected_payload_leaves_store_witness:
  "ShouldBindJSON (BodyDecoded \<lparr>RepositoryName = [], Posts = Some [entry_a]\<rparr>)
     = Inl (ValidationErrors [''RepositoryName''])
   \<and> PutLockfileHandler (engine_at 2000 2) (Some [row_at 1000 1000 my_repo]) ''repo-1''
        (BodyDecoded \<lparr>RepositoryName = [], Posts = Some [entry_a]\<rparr>)
     = ((400, ErrorBind (ValidationErrors [''RepositoryName''])), Some [row_at 1000 1000 my_repo])"
proof -
  have b: "ShouldBindJSON (BodyDecoded \<lparr>RepositoryName = [], Posts = Some [entry_a]\<rparr>)
     = Inl (ValidationErrors [''RepositoryName''])"
    by (simp add: ShouldBindJSON_def validate_PutLockfileRequest_def)
  from rejected_payload_leaves_store [OF b] b show ?thesis by simp
qed

text \<open>
  \<open>ShouldBindJSON\<close> accepts a body exactly when it decodes to a request with a
  non-empty name and a non-nil list of posts.
\<close>

theorem ShouldBindJSON_accepts_iff:
  "(\<exists>r. ShouldBindJSON b = Inr r) =
   (\<exists>r. b = BodyDecoded r \<and> PutLockfileRequest.RepositoryName r \<noteq> [] \<and> Posts r \<noteq> None)"
  by (cases b) (auto simp: ShouldBindJSON_def validate_PutLockfileRequest_def)

text \<open>
  A PUT whose caller the filter denies is answered 403 and changes nothing.
\<close>

theorem forbidden_leaves_server:
  assumes "isAllowedIP pa (ClientIP req) (route_allowedIPs s) = Inr False"
  shows "PUT_lockfiles pa env s req = ((403, ErrorText ''Access denied''), s)"
  using assms by (simp add: PUT_lockfiles_def IPFilterMiddleware_def)

theorem forbidden_leaves_server_witness:
  "isAllowedIP parseIPv4 (ClientIP (put_from ''192.168.1.1'' my_repo))
      (route_allowedIPs (server_10\<lparr>db := Some [row_at 1000 1000 my_repo]\<rparr>)) = Inr False
   \<and> PUT_lockfiles parseIPv4 (engine_at 2000 2) (server_10\<lparr>db := Some [row_at 1000 1000 my_repo]\<rparr>)
        (put_from ''192.168.1.1'' my_repo)
      = ((403, ErrorText ''Access denied''), server_10\<lparr>db := Some [row_at 1000 1000 my_repo]\<rparr>)"
proof -
  have a: "isAllowedIP parseIPv4 (ClientIP (put_from ''192.168.1.1'' my_repo))
      (route_allowedIPs (server_10\<lparr>db := Some [row_at 1000 1000 my_repo]\<rparr>)) = Inr False"
    by (simp add: put_from_def server_10_def isAllowedIP_192_in_10)
  from forbidden_leaves_server [OF a] a show ?thesis by simp
qed

text \<open>
  No run of rounds of the refresh loop changes what the PUT route answers: the filter's
  list is the one of the startup.
\<close>

theorem refresh_never_reaches_the_filter:
  "fst (PUT_lockfiles pa env (run_ticks s hs) req) = fst (PUT_lockfiles pa env s req)
   \<and> IPFilterMiddleware pa (route_allowedIPs (run_ticks s hs)) ip
       = IPFilterMiddleware pa (route_allowedIPs s) ip"
  by (simp add: PUT_lockfiles_def run_ticks_route run_ticks_db split: sum.splits option.splits prod.splits)

text \<open>
  The upsert keeps the repository identifiers of the table distinct: at most one
  document per identifier.
\<close>

theorem upsert_keeps_ids_distinct:
  assumes "distinct (map repository_id rows)"
      and "upsert env (Some rows) rid name c = Inr d'"
  shows "\<exists>rows'. d' = Some rows' \<and> distinct (map repository_id rows')"
proof (cases "rid \<in> repository_id ` set rows")
  case True
  with assms(2) have "d' = Some (map (\<lambda>r. if repository_id r = rid
                                      then r\<lparr>content := c, repository_name := name,
                                             updated_at := CURRENT_TIMESTAMP env\<rparr>
                                      else r) rows)"
    by (auto simp: upsert_def split: option.splits)
  with assms(1) show ?thesis by (simp add: map_id_upsert del: map_map)
next
  case False
  with assms(2) have "d' = Some (rows @ [\<lparr>row_id = uuid_generate_v4 env, repository_id = rid,
                                     repository_name = name, content = c,
                                     created_at = CURRENT_TIMESTAMP env,
                                     updated_at = CURRENT_TIMESTAMP env\<rparr>])"
    by (auto simp: upsert_def split: option.splits if_splits)
  with assms(1) False show ?thesis by auto
qed

theorem upsert_keeps_ids_distinct_witness:
  "distinct (map repository_id [row_at 1000 1000 my_repo])
   \<and> upsert (engine_at 2000 2) (Some [row_at 1000 1000 my_repo]) ''repo-2'' ''Other'' (JArray [])
      = Inr (Some [row_at 1000 1000 my_repo,
                   \<lparr>row_id = 2, repository_id = ''repo-2'', repository_name = ''Other'',
                    content = JArray [], created_at = 2000, updated_at = 2000\<rparr>])
   \<and> distinct (map repository_id [row_at 1000 1000 my_repo,
                   \<lparr>row_id = 2, repository_id = ''repo-2'', repository_name = ''Other'',
                    content = JArray [], created_at = 2000, updated_at = 2000\<rparr>])"
proof -
  have a: "distinct (map repository_id [row_at 1000 1000 my_repo])" by simp
  have u: "upsert (engine_at 2000 2) (Some [row_at 1000 1000 my_repo]) ''repo-2'' ''Other'' (JArray [])
      = Inr (Some [row_at 1000 1000 my_repo,
                   \<lparr>row_id = 2, repository_id = ''repo-2'', repository_name = ''Other'',
                    content = JArray [], created_at = 2000, updated_at = 2000\<rparr>])"
    by (simp add: upsert_def engine_at_def row_at_def)
  from upsert_keeps_ids_distinct [OF a u] a u show ?thesis by simp
qed

end
